theory Spec2Isabelle
  imports Main "HOL-Library.Sublist" "HOL-Library.AList"
begin

section \<open>Python values and strings\<close>

text \<open>
  The agent moves JSON-like data around: messages, tool-call requests, keyword arguments
  and schemas are Python dicts with string keys. A dict is an association list in
  insertion order (\<open>d[k] = v\<close> is \<^const>\<open>AList.update\<close>, which keeps the position of a key
  that is already there, as Python does); \<open>k in d\<close> is \<open>map_of d k \<noteq> None\<close>.
  A float is given by its \<open>repr\<close> text (\<open>PFloat ''1.5''\<close>): the modelled code prints
  floats and tests them for truth, and does nothing else with them.
\<close>

datatype pyval =
    PNone
  | PBool bool
  | PInt int
  | PFloat string
  | PStr string
  | PList "pyval list"
  | PDict "(string \<times> pyval) list"

type_synonym pydict = "(string \<times> pyval) list"

text \<open>\<open>d.get(k)\<close>: the value, or \<open>None\<close> when the key is missing.\<close>

definition dict_get :: "pydict \<Rightarrow> string \<Rightarrow> pyval" where
  "dict_get d k = (case map_of d k of None \<Rightarrow> PNone | Some v \<Rightarrow> v)"

text \<open>\<open>d.get(k, dflt)\<close>.\<close>

definition dict_get_default :: "pydict \<Rightarrow> string \<Rightarrow> pyval \<Rightarrow> pyval" where
  "dict_get_default d k dflt = (case map_of d k of None \<Rightarrow> dflt | Some v \<Rightarrow> v)"

text \<open>Truthiness, as \<open>if x\<close>, \<open>not x\<close> and \<open>x or y\<close> test it.\<close>

fun truthy :: "pyval \<Rightarrow> bool" where
  "truthy PNone = False"
| "truthy (PBool b) = b"
| "truthy (PInt i) = (i \<noteq> 0)"
| "truthy (PFloat r) = (r \<noteq> ''0.0'' \<and> r \<noteq> ''-0.0'')"
| "truthy (PStr s) = (s \<noteq> [])"
| "truthy (PList xs) = (xs \<noteq> [])"
| "truthy (PDict d) = (d \<noteq> [])"

text \<open>
  \<open>w in s\<close> on strings is the contiguous-substring test, \<^const>\<open>sublist\<close> of the library:
  \<open>sublist w s \<longleftrightarrow> (\<exists>ps ss. s = ps @ w @ ss)\<close>.
\<close>

definition str_in :: "string \<Rightarrow> string \<Rightarrow> bool" where
  "str_in w s = sublist w s"

text \<open>
  \<open>s.lower()\<close> on ASCII text: the letters A to Z are mapped to a to z and every other
  character is kept. (Python strings are Unicode; names outside ASCII are not modelled.)
\<close>

definition lower_char :: "char \<Rightarrow> char" where
  "lower_char c =
     (case map_of (zip ''ABCDEFGHIJKLMNOPQRSTUVWXYZ'' ''abcdefghijklmnopqrstuvwxyz'') c of
        None \<Rightarrow> c
      | Some l \<Rightarrow> l)"

definition str_lower :: "string \<Rightarrow> string" where
  "str_lower s = map lower_char s"

section \<open>The tool registry (src/tools/__init__.py)\<close>

subsection \<open>Category inference\<close>

text \<open>
  \<open>ToolRegistry._auto_categorize\<close>: an \<open>if\<close>/\<open>elif\<close> chain over the lower-cased name; the
  first rule that matches decides.
\<close>

definition auto_categorize :: "string \<Rightarrow> string" where
  "auto_categorize name =
     (let name_lower = str_lower name in
      if str_in ''generate'' name_lower then ''generation''
      else if (\<exists>word \<in> set [''save'', ''write'', ''store'']. str_in word name_lower)
        then ''storage''
      else if (\<exists>word \<in> set [''search'', ''find'', ''query'']. str_in word name_lower)
        then ''search''
      else if (\<exists>word \<in> set [''read'', ''list'', ''get'', ''fetch'']. str_in word name_lower)
        then ''retrieval''
      else if (\<exists>word \<in> set [''email'', ''send'', ''message'']. str_in word name_lower)
        then ''communication''
      else if str_in ''_and_'' name_lower then ''combined''
      else if (\<exists>word \<in> set [''calculate'', ''math'', ''compute'']. str_in word name_lower)
        then ''calculation''
      else if (\<exists>word \<in> set [''password'', ''encrypt'', ''hash'']. str_in word name_lower)
        then ''security''
      else ''utility'')"

subsection \<open>Exceptions\<close>

text \<open>
  The exception classes of src/core/exceptions.py that the modelled code raises, the
  built-in ones it can meet, and the \<open>MarkupError\<close> of the Rich library. Every constructor is an instance of Python's \<open>Exception\<close>,
  so \<open>except Exception\<close> catches all of them. \<open>exn_str\<close> is \<open>str(e)\<close>, the text that an
  f-string interpolates.
\<close>

datatype exn =
    LLMConnectionError string string
  | LLMTimeoutError int
  | LLMResponseError string
  | ToolError string
  | ToolNotFoundError string
  | ToolValidationError string string
  | TypeError string
  | KeyError string
  | AttributeError string
  | UnboundLocalError string
  | RecursionError string
  | MarkupError string
  | OtherException string

definition quote :: string where
  "quote = [CHR 0x27]"

text \<open>\<open>str(i)\<close> for an integer: decimal digits, with a minus sign when negative.\<close>

definition digit_char :: "nat \<Rightarrow> char" where
  "digit_char d = ''0123456789'' ! d"

fun str_nat :: "nat \<Rightarrow> string" where
  "str_nat n = (if n < 10 then [digit_char n] else str_nat (n div 10) @ [digit_char (n mod 10)])"

declare str_nat.simps [simp del]

definition str_int :: "int \<Rightarrow> string" where
  "str_int i = (if i < 0 then ''-'' @ str_nat (nat (- i)) else str_nat (nat i))"

fun exn_str :: "exn \<Rightarrow> string" where
  "exn_str (LLMConnectionError url original_error) =
     ''Cannot connect to LLM at '' @ url @ '': '' @ original_error"
| "exn_str (LLMTimeoutError timeout) =
     ''LLM request timed out after '' @ str_int timeout @ '' seconds''"
| "exn_str (LLMResponseError message) = message"
| "exn_str (ToolError message) = message"
| "exn_str (ToolNotFoundError tool_name) = ''Tool '' @ quote @ tool_name @ quote @ '' not found''"
| "exn_str (ToolValidationError tool_name validation_message) =
     ''Tool '' @ quote @ tool_name @ quote @ '' validation failed: '' @ validation_message"
| "exn_str (TypeError message) = message"
| "exn_str (KeyError key) = quote @ key @ quote"
| "exn_str (AttributeError message) = message"
| "exn_str (UnboundLocalError message) = message"
| "exn_str (RecursionError message) = message"
| "exn_str (MarkupError message) = message"
| "exn_str (OtherException message) = message"

text \<open>\<open>isinstance(e, LLMError)\<close>: the three subclasses of \<open>LLMError\<close>.\<close>

fun is_LLMError :: "exn \<Rightarrow> bool" where
  "is_LLMError (LLMConnectionError _ _) = True"
| "is_LLMError (LLMTimeoutError _) = True"
| "is_LLMError (LLMResponseError _) = True"
| "is_LLMError _ = False"

subsection \<open>Function objects\<close>

text \<open>
  What the registry reads from a handler: its signature (\<open>inspect.signature\<close>), its
  docstring (\<open>__doc__\<close>) and its behaviour when called with keyword arguments. A call
  may change the world outside the agent (files, network), which is the state \<open>'w\<close>, and
  either returns a value or raises.
\<close>

datatype param_kind =
  POSITIONAL_ONLY | POSITIONAL_OR_KEYWORD | VAR_POSITIONAL | KEYWORD_ONLY | VAR_KEYWORD

text \<open>
  An annotation is compared with the classes \<open>int\<close>, \<open>float\<close>, \<open>bool\<close>, \<open>list\<close> and
  \<open>dict\<close>; \<open>AnnOther\<close> is any other annotation (\<open>str\<close>, a typing generic, a string),
  \<open>AnnEmpty\<close> is \<open>inspect.Parameter.empty\<close>.
\<close>

datatype annotation =
  AnnEmpty | AnnInt | AnnFloat | AnnBool | AnnList | AnnDict | AnnOther string

record param =
  param_name :: string
  kind :: param_kind
  annotation :: annotation
  default :: "pyval option"

record 'w pyfunc =
  parameters :: "param list"
  doc :: "string option"
  call :: "pydict \<Rightarrow> 'w \<Rightarrow> (exn + pyval) \<times> 'w"

subsection \<open>Schema inference\<close>

text \<open>\<open>s.split(c)\<close> for a one-character separator; the result is never empty.\<close>

fun split_on :: "char \<Rightarrow> string \<Rightarrow> string list" where
  "split_on c [] = [[]]"
| "split_on c (x # xs) =
     (if x = c then [] # split_on c xs
      else (case split_on c xs of [] \<Rightarrow> [[x]] | l # ls \<Rightarrow> (x # l) # ls))"

text \<open>\<open>c.isspace()\<close> on ASCII and \<open>s.strip()\<close>.\<close>

definition is_space :: "char \<Rightarrow> bool" where
  "is_space c \<longleftrightarrow>
     c \<in> set [CHR '' '', CHR 0x09, CHR 0x0A, CHR 0x0B, CHR 0x0C, CHR 0x0D,
              CHR 0x1C, CHR 0x1D, CHR 0x1E, CHR 0x1F]"

definition strip :: "string \<Rightarrow> string" where
  "strip s = rev (dropWhile is_space (rev (dropWhile is_space s)))"

text \<open>\<open>line.split(':', 1)[1]\<close> for a line that contains a colon: what follows the first one.\<close>

definition after_colon :: "string \<Rightarrow> string" where
  "after_colon line = tl (dropWhile (\<lambda>x. x \<noteq> CHR '':'') line)"

text \<open>The annotation branch of \<open>_auto_generate_schema\<close>; the default type is string.\<close>

fun param_type :: "annotation \<Rightarrow> string" where
  "param_type AnnInt = ''integer''"
| "param_type AnnFloat = ''number''"
| "param_type AnnBool = ''boolean''"
| "param_type AnnList = ''array''"
| "param_type AnnDict = ''object''"
| "param_type _ = ''string''"

text \<open>
  The docstring heuristic: the first line that contains the parameter name and a colon
  ends the search; its text after the colon, stripped, is the description when not empty.
\<close>

definition param_description :: "string option \<Rightarrow> string \<Rightarrow> string option" where
  "param_description d pname =
     (case d of
        None \<Rightarrow> None
      | Some text \<Rightarrow>
          if text = [] then None
          else (case find (\<lambda>line. str_in pname line \<and> CHR '':'' \<in> set line)
                       (split_on CHR 0x0A text) of
                  None \<Rightarrow> None
                | Some line \<Rightarrow>
                    (let desc = strip (after_colon line) in
                     if desc \<noteq> [] then Some desc else None)))"

definition param_schema :: "string option \<Rightarrow> param \<Rightarrow> pydict" where
  "param_schema d p =
     (let schema = [(''type'', PStr (param_type (annotation p)))] in
      case param_description d (param_name p) of
        None \<Rightarrow> schema
      | Some desc \<Rightarrow> AList.update ''description'' (PStr desc) schema)"

text \<open>One round of the loop over \<open>sig.parameters.items()\<close>, on (properties, required).\<close>

definition schema_step :: "string option \<Rightarrow> pydict \<times> string list \<Rightarrow> param \<Rightarrow> pydict \<times> string list" where
  "schema_step d acc p =
     (case acc of (properties, required) \<Rightarrow>
        if kind p = VAR_POSITIONAL \<or> kind p = VAR_KEYWORD then (properties, required)
        else (AList.update (param_name p) (PDict (param_schema d p)) properties,
              if default p = None then required @ [param_name p] else required))"

definition auto_generate_schema :: "'w pyfunc \<Rightarrow> pyval" where
  "auto_generate_schema function =
     (case foldl (schema_step (doc function)) ([], []) (parameters function) of
        (properties, required) \<Rightarrow>
          PDict [(''type'', PStr ''object''),
                 (''properties'', PDict properties),
                 (''required'', PList (map PStr required))])"

subsection \<open>Registration, lookup and execution\<close>

record 'w tool_info =
  info_name :: string
  info_function :: "'w pyfunc"
  info_description :: string
  info_category :: string
  info_schema :: pyval

text \<open>
  \<open>ToolRegistry\<close>: the dispatch dict \<open>_tools\<close> and the metadata dict \<open>_tool_info\<close>, both
  in insertion order.
\<close>

record 'w tool_registry =
  tools :: "(string \<times> 'w pyfunc) list"
  tool_info :: "(string \<times> 'w tool_info) list"
  loaded_plugins :: "string list"

definition new_registry :: "'w tool_registry" where
  "new_registry = \<lparr>tools = [], tool_info = [], loaded_plugins = []\<rparr>"

text \<open>
  \<open>register_tool(name, function, description=None, category=None, schema=None)\<close>. The
  warning and debug lines go to the logger, which is outside the model.
\<close>

definition register_tool ::
  "'w tool_registry \<Rightarrow> string \<Rightarrow> 'w pyfunc \<Rightarrow> string option \<Rightarrow> string option \<Rightarrow> pyval option
     \<Rightarrow> 'w tool_registry" where
  "register_tool reg name function description category schema =
     (let description' =
            (case description of
               None \<Rightarrow> (case doc function of
                          None \<Rightarrow> name @ ''()''
                        | Some d \<Rightarrow> if d \<noteq> [] then d else name @ ''()'')
             | Some d \<Rightarrow> d);
          category' = (case category of None \<Rightarrow> auto_categorize name | Some c \<Rightarrow> c);
          schema' = (case schema of None \<Rightarrow> auto_generate_schema function | Some s \<Rightarrow> s)
      in reg\<lparr>tools := AList.update name function (tools reg),
              tool_info := AList.update name
                 \<lparr>info_name = name, info_function = function, info_description = description',
                  info_category = category', info_schema = schema'\<rparr> (tool_info reg)\<rparr>)"

text \<open>
  The state of the process that the modelled code reads and writes: the world outside,
  the history list of the conversation manager, and a log of what the code did (each
  call of the LLM client with its two arguments, each call of a tool handler with its
  keyword arguments, each message given to the history), kept to state the claims about
  how often and in which order these happen.
\<close>

datatype event =
    LLMCall "pydict list" "pyval list option"
  | ToolInvoked string pydict
  | Appended pydict

record 'w state =
  world :: 'w
  events :: "event list"
  history :: "pydict list"

text \<open>The call of \<open>self._tools[name]\<close> with the keyword arguments: the handler runs on the world.\<close>

definition invoke :: "'w pyfunc \<Rightarrow> string \<Rightarrow> pydict \<Rightarrow> 'w state \<Rightarrow> (exn + pyval) \<times> 'w state" where
  "invoke function name kwargs st =
     (case call function kwargs (world st) of
        (r, w) \<Rightarrow> (r, st\<lparr>world := w, events := events st @ [ToolInvoked name kwargs]\<rparr>))"

text \<open>
  \<open>execute_tool(name, **kwargs)\<close>: an unknown name raises \<open>ToolNotFoundError\<close>; a
  \<open>TypeError\<close> of the call becomes \<open>ToolValidationError\<close>, any other exception a
  \<open>ToolError\<close> with the text of the original one.
\<close>

definition execute_tool ::
  "'w tool_registry \<Rightarrow> string \<Rightarrow> pydict \<Rightarrow> 'w state \<Rightarrow> (exn + pyval) \<times> 'w state" where
  "execute_tool reg name kwargs st =
     (case map_of (tools reg) name of
        None \<Rightarrow> (Inl (ToolNotFoundError name), st)
      | Some function \<Rightarrow>
          (case invoke function name kwargs st of
             (Inr result, st') \<Rightarrow> (Inr result, st')
           | (Inl e, st') \<Rightarrow>
               (case e of
                  TypeError m \<Rightarrow> (Inl (ToolValidationError name m), st')
                | _ \<Rightarrow> (Inl (ToolError (''Tool '' @ quote @ name @ quote @
                                         '' execution failed: '' @ exn_str e)), st'))))"

text \<open>\<open>get_tool(name)\<close>.\<close>

definition get_tool :: "'w tool_registry \<Rightarrow> string \<Rightarrow> exn + 'w pyfunc" where
  "get_tool reg name =
     (case map_of (tools reg) name of
        None \<Rightarrow> Inl (ToolNotFoundError name)
      | Some function \<Rightarrow> Inr function)"

text \<open>\<open>list_tools()\<close>.\<close>

definition list_tools :: "'w tool_registry \<Rightarrow> string list" where
  "list_tools reg = map fst (tools reg)"

text \<open>\<open>get_tools_schema()\<close>: one entry for each value of \<open>_tool_info\<close>, in its order.\<close>

definition tool_def :: "'w tool_info \<Rightarrow> pyval" where
  "tool_def ti =
     PDict [(''type'', PStr ''function''),
            (''function'', PDict [(''name'', PStr (info_name ti)),
                                  (''description'', PStr (info_description ti)),
                                  (''parameters'', info_schema ti)])]"

definition get_tools_schema :: "'w tool_registry \<Rightarrow> pyval list" where
  "get_tools_schema reg = map (\<lambda>(key, ti). tool_def ti) (tool_info reg)"


text \<open>The registry after a sequence of \<open>register_tool\<close> calls on a fresh one.\<close>

type_synonym 'w registration =
  "string \<times> 'w pyfunc \<times> string option \<times> string option \<times> pyval option"

definition register_all :: "'w tool_registry \<Rightarrow> 'w registration list \<Rightarrow> 'w tool_registry" where
  "register_all reg regs =
     foldl (\<lambda>r (name, function, description, category, schema).
              register_tool r name function description category schema) reg regs"

section \<open>The conversation manager (src/core/agent.py)\<close>

text \<open>
  A history entry is a dict with the keys \<open>role\<close>, \<open>content\<close>, \<open>timestamp\<close> and whatever
  keyword arguments came with it. \<open>xs[i:]\<close> is Python's slice with a possibly negative
  start; \<open>history[-max_history:]\<close> is \<open>slice_from (- max_history) history\<close>, the last
  \<open>max_history\<close> entries when \<open>max_history\<close> is positive.
\<close>

definition slice_from :: "int \<Rightarrow> 'a list \<Rightarrow> 'a list" where
  "slice_from i xs =
     (let n = int (length xs);
          j = (if i < 0 then max 0 (n + i) else min i n)
      in drop (nat j) xs)"

text \<open>
  The first half of \<open>add_message\<close>: the new entry, with the keyword arguments that are
  not \<open>None\<close> stored under their names. (Python refuses a keyword named \<open>role\<close> or
  \<open>content\<close> at the call; the callers pass \<open>tool_calls\<close> and \<open>tool_name\<close>.) The time
  of the call, \<open>datetime.now().isoformat()\<close>, is an argument here.
\<close>

definition new_message :: "string \<Rightarrow> pyval \<Rightarrow> string \<Rightarrow> pydict \<Rightarrow> pydict" where
  "new_message role content timestamp kwargs =
     foldl (\<lambda>message (key, value). if value \<noteq> PNone then AList.update key value message else message)
       [(''role'', PStr role), (''content'', content), (''timestamp'', PStr timestamp)] kwargs"

text \<open>
  \<open>ConversationManager.add_message\<close>: append, then trim when the list is longer than
  twice \<open>max_history\<close>.
\<close>

definition add_message :: "int \<Rightarrow> string \<Rightarrow> pyval \<Rightarrow> string \<Rightarrow> pydict \<Rightarrow> pydict list \<Rightarrow> pydict list" where
  "add_message max_hist role content timestamp kwargs hist =
     (let hist' = hist @ [new_message role content timestamp kwargs] in
      if int (length hist') > max_hist * 2 then
        (let system_msgs = filter (\<lambda>msg. dict_get msg ''role'' = PStr ''system'') hist';
             recent_msgs = slice_from (- max_hist) hist'
         in system_msgs @ recent_msgs)
      else hist')"

text \<open>\<open>d[k]\<close>: a missing key raises \<open>KeyError\<close>.\<close>

definition dict_item :: "pydict \<Rightarrow> string \<Rightarrow> exn + pyval" where
  "dict_item d k = (case map_of d k of None \<Rightarrow> Inl (KeyError k) | Some v \<Rightarrow> Inr v)"

text \<open>The entry that \<open>get_context_messages\<close> builds from a history entry and its content.\<close>

definition context_msg :: "pydict \<Rightarrow> pyval \<Rightarrow> pyval \<Rightarrow> pydict" where
  "context_msg msg role content =
     (let c0 = [(''role'', role), (''content'', content)];
          c1 = (case map_of msg ''tool_calls'' of None \<Rightarrow> c0 | Some v \<Rightarrow> AList.update ''tool_calls'' v c0);
          c2 = (case map_of msg ''tool_name'' of None \<Rightarrow> c1 | Some v \<Rightarrow> AList.update ''tool_name'' v c1)
      in c2)"

text \<open>
  The loop of \<open>get_context_messages\<close> over the recent entries: the entries it appends
  to the context, or the \<open>KeyError\<close> of the first entry that lacks a key it reads.
\<close>

fun context_entries :: "pydict list \<Rightarrow> exn + pydict list" where
  "context_entries [] = Inr []"
| "context_entries (msg # rest) =
     (case dict_item msg ''role'' of
        Inl e \<Rightarrow> Inl e
      | Inr role \<Rightarrow>
          if role \<in> set [PStr ''user'', PStr ''assistant'', PStr ''tool''] then
            (case dict_item msg ''content'' of
               Inl e \<Rightarrow> Inl e
             | Inr content \<Rightarrow>
                 (case context_entries rest of
                    Inl e \<Rightarrow> Inl e
                  | Inr entries \<Rightarrow> Inr (context_msg msg role content # entries)))
          else context_entries rest)"

definition get_context_messages :: "int \<Rightarrow> pydict list \<Rightarrow> string \<Rightarrow> exn + pydict list" where
  "get_context_messages max_hist hist prompt =
     (case context_entries (slice_from (- max_hist) hist) of
        Inl e \<Rightarrow> Inl e
      | Inr entries \<Rightarrow> Inr ([(''role'', PStr ''system''), (''content'', PStr prompt)] # entries))"

definition clear_history :: "pydict list \<Rightarrow> pydict list" where
  "clear_history hist = []"

subsection \<open>The history as an object: references and copies\<close>

text \<open>
  \<open>get_history\<close> returns \<open>self.history.copy()\<close>. What a caller can do to the manager
  through the returned list depends on which objects the copy shares with the original,
  so here the history is a list object on a heap, holding references to dict objects.
  An address is an index into the heap; allocation appends. The list of dicts that the
  sections above call the history is \<open>stored_history\<close>, what the manager's reference
  leads to.
\<close>

datatype obj = ListObj "nat list" | DictObj pydict

type_synonym heap = "obj list"

record manager =
  history_ref :: nat

definition heap_get :: "heap \<Rightarrow> nat \<Rightarrow> obj option" where
  "heap_get hp a = (if a < length hp then Some (hp ! a) else None)"

definition alloc :: "heap \<Rightarrow> obj \<Rightarrow> nat \<times> heap" where
  "alloc hp ob = (length hp, hp @ [ob])"

text \<open>\<open>xs.copy()\<close>: a new list object with the same elements (references).\<close>

definition list_copy :: "heap \<Rightarrow> nat \<Rightarrow> (nat \<times> heap) option" where
  "list_copy hp a =
     (case heap_get hp a of
        Some (ListObj elems) \<Rightarrow> Some (alloc hp (ListObj elems))
      | _ \<Rightarrow> None)"

definition get_history :: "manager \<Rightarrow> heap \<Rightarrow> (nat \<times> heap) option" where
  "get_history mgr hp = list_copy hp (history_ref mgr)"

text \<open>The dicts that a list reference leads to.\<close>

definition deref_dict :: "heap \<Rightarrow> nat \<Rightarrow> pydict option" where
  "deref_dict hp a = (case heap_get hp a of Some (DictObj d) \<Rightarrow> Some d | _ \<Rightarrow> None)"

definition deref_list :: "heap \<Rightarrow> nat \<Rightarrow> pydict list option" where
  "deref_list hp a =
     (case heap_get hp a of
        Some (ListObj elems) \<Rightarrow> those (map (deref_dict hp) elems)
      | _ \<Rightarrow> None)"

definition stored_history :: "manager \<Rightarrow> heap \<Rightarrow> pydict list option" where
  "stored_history mgr hp = deref_list hp (history_ref mgr)"

text \<open>
  What a caller can do with a list reference \<open>r\<close>: change the list itself (\<open>append\<close>,
  \<open>pop\<close>, \<open>clear\<close>, \<open>r[i] = x\<close>, \<open>del r[i]\<close>, \<open>sort\<close>: any function on the element
  references), or change the dict that is its \<open>i\<close>-th element in place
  (\<open>r[i][k] = v\<close>, \<open>r[i].update(...)\<close>, \<open>r[i].clear()\<close>: any function on that dict). An
  index out of range raises and leaves the heap as it was.
\<close>

datatype mutation =
    ListMutation "nat list \<Rightarrow> nat list"
  | ItemMutation nat "pydict \<Rightarrow> pydict"

fun apply_mutation :: "heap \<Rightarrow> nat \<Rightarrow> mutation \<Rightarrow> heap" where
  "apply_mutation hp r (ListMutation f) =
     (case heap_get hp r of
        Some (ListObj elems) \<Rightarrow> hp[r := ListObj (f elems)]
      | _ \<Rightarrow> hp)"
| "apply_mutation hp r (ItemMutation i g) =
     (case heap_get hp r of
        Some (ListObj elems) \<Rightarrow>
          if i < length elems then
            (case heap_get hp (elems ! i) of
               Some (DictObj d) \<Rightarrow> hp[elems ! i := DictObj (g d)]
             | _ \<Rightarrow> hp)
          else hp
      | _ \<Rightarrow> hp)"

section \<open>The agent (src/core/agent.py)\<close>

subsection \<open>Rendering values\<close>

text \<open>
  \<open>repr(v)\<close>, \<open>str(v)\<close> and the name of a value's type, as they appear in results,
  log lines and error texts. \<open>repr\<close> of a string follows CPython: the string is written
  between single quotes, or between double quotes when it contains a single quote and no
  double quote; the backslash and the chosen quote are escaped, tab, newline and carriage
  return are written \<open>\t\<close>, \<open>\n\<close>, \<open>\r\<close>, every other control character as \<open>\xNN\<close>.
  (Characters outside ASCII are kept as they are.)
\<close>

fun join :: "string \<Rightarrow> string list \<Rightarrow> string" where
  "join sep [] = []"
| "join sep [x] = x"
| "join sep (x # y # ys) = x @ sep @ join sep (y # ys)"

definition hex_digit :: "nat \<Rightarrow> char" where
  "hex_digit d = ''0123456789abcdef'' ! d"

definition repr_char :: "char \<Rightarrow> char \<Rightarrow> string" where
  "repr_char q c =
     (if c = q \<or> c = CHR 0x5C then [CHR 0x5C, c]
      else if c = CHR 0x09 then [CHR 0x5C, CHR ''t'']
      else if c = CHR 0x0A then [CHR 0x5C, CHR ''n'']
      else if c = CHR 0x0D then [CHR 0x5C, CHR ''r'']
      else if (of_char c :: nat) < 32 \<or> c = CHR 0x7F then
        [CHR 0x5C, CHR ''x'', hex_digit (of_char c div 16), hex_digit (of_char c mod 16)]
      else [c])"

definition repr_str :: "string \<Rightarrow> string" where
  "repr_str s =
     (let q = (if CHR 0x27 \<in> set s \<and> CHR 0x22 \<notin> set s then CHR 0x22 else CHR 0x27)
      in [q] @ concat (map (repr_char q) s) @ [q])"

fun py_repr :: "pyval \<Rightarrow> string" where
  "py_repr PNone = ''None''"
| "py_repr (PBool b) = (if b then ''True'' else ''False'')"
| "py_repr (PInt i) = str_int i"
| "py_repr (PFloat r) = r"
| "py_repr (PStr s) = repr_str s"
| "py_repr (PList xs) = ''['' @ join '', '' (map py_repr xs) @ '']''"
| "py_repr (PDict d) =
     ''{'' @ join '', '' (map (\<lambda>kv. repr_str (fst kv) @ '': '' @ py_repr (snd kv)) d) @ ''}''"

definition py_str :: "pyval \<Rightarrow> string" where
  "py_str v = (case v of PStr s \<Rightarrow> s | _ \<Rightarrow> py_repr v)"

fun type_name :: "pyval \<Rightarrow> string" where
  "type_name PNone = ''NoneType''"
| "type_name (PBool _) = ''bool''"
| "type_name (PInt _) = ''int''"
| "type_name (PFloat _) = ''float''"
| "type_name (PStr _) = ''str''"
| "type_name (PList _) = ''list''"
| "type_name (PDict _) = ''dict''"

subsection \<open>The LLM client and the environment of a turn\<close>

text \<open>
  \<open>ChatMessage\<close> and \<open>LLMResponse\<close> of src/llm/client.py. The timing is a float that
  is only ever printed with two decimals; the field holds that text.
\<close>

record chat_message =
  msg_role :: string
  msg_content :: string
  msg_tool_calls :: "pydict list option"
  msg_tool_name :: "string option"

record llm_response =
  message :: chat_message
  timing :: string
  model :: string
  total_tokens :: "int option"

text \<open>
  What a turn depends on besides the state:
  \<^item> the LLM client: \<open>chat(messages, tools)\<close> returns a response or raises, and may change
    the world;
  \<^item> \<open>now\<close>, the clock read by \<open>add_message\<close>, and \<open>duration\<close>, the time between the world
    before and the world after a tool call, as the text with two decimals that is printed;
  \<^item> the configuration: \<open>max_history\<close> and \<open>verbosity\<close>;
  \<^item> the tool registry;
  \<^item> the text that \<open>build_system_prompt()\<close> returns (that method catches every exception
    of its \<open>try\<close> block and its wording plays no part below);
  \<^item> \<open>markup_error\<close>, the one thing the logger needs from the Rich library: a text given
    to \<open>console.print\<close> or to the logging handler (\<open>RichHandler\<close> with \<open>markup=True\<close>) is
    parsed as console markup, and the parser raises \<open>MarkupError\<close> on some texts, for
    one on a closing tag such as \<open>[/x]\<close> that matches no open tag. \<open>markup_error t\<close> is
    the exception raised on the text \<open>t\<close>, if any;
  \<^item> \<open>recursion_text\<close>, the text of the \<open>RecursionError\<close> that the interpreter raises
    when its call stack is full, which depends on where that happens.
\<close>

record 'w env =
  chat :: "pydict list \<Rightarrow> pyval list option \<Rightarrow> 'w \<Rightarrow> (exn + llm_response) \<times> 'w"
  now :: "'w \<Rightarrow> string \<times> 'w"
  duration :: "'w \<Rightarrow> 'w \<Rightarrow> string"
  max_history :: int
  verbosity :: string
  registry :: "'w tool_registry"
  system_prompt :: string
  markup_error :: "string \<Rightarrow> exn option"
  recursion_text :: string

text \<open>\<open>self.conversation.add_message(role, content, **kwargs)\<close>, reading the clock.\<close>

definition conversation_add_message ::
  "'w env \<Rightarrow> string \<Rightarrow> pyval \<Rightarrow> pydict \<Rightarrow> 'w state \<Rightarrow> 'w state" where
  "conversation_add_message env role content kwargs st =
     (case now env (world st) of
        (timestamp, w) \<Rightarrow>
          st\<lparr>world := w,
             events := events st @ [Appended (new_message role content timestamp kwargs)],
             history := add_message (max_history env) role content timestamp kwargs (history st)\<rparr>)"

text \<open>\<open>self.llm_client.chat(messages, tools)\<close>.\<close>

definition llm_chat ::
  "'w env \<Rightarrow> pydict list \<Rightarrow> pyval list option \<Rightarrow> 'w state \<Rightarrow> (exn + llm_response) \<times> 'w state" where
  "llm_chat env messages tools_arg st =
     (case chat env messages tools_arg (world st) of
        (r, w) \<Rightarrow> (r, st\<lparr>world := w, events := events st @ [LLMCall messages tools_arg]\<rparr>))"

text \<open>\<open>if response.message.tool_calls\<close>: neither \<open>None\<close> nor an empty list.\<close>

definition has_tool_calls :: "llm_response \<Rightarrow> bool" where
  "has_tool_calls response =
     (case msg_tool_calls (message response) of None \<Rightarrow> False | Some tcs \<Rightarrow> tcs \<noteq> [])"

subsection \<open>The logger (src/utils/logging.py)\<close>

text \<open>
  \<open>OllamaLogger\<close>. Each method builds a text and hands it to Rich; the result \<open>Some e\<close>
  says that the call raises \<open>e\<close>, \<open>None\<close> that it returns. The level of the logger and of
  its console handler is \<open>level_map.get(verbosity.lower(), logging.INFO)\<close>; a record below
  that level is dropped before any text is rendered. (The file handler of the debug
  verbosity comes after the console handler and reports its own errors without raising.)
\<close>

datatype log_level = DEBUG | INFO | WARNING | ERROR

fun level_no :: "log_level \<Rightarrow> nat" where
  "level_no DEBUG = 10"
| "level_no INFO = 20"
| "level_no WARNING = 30"
| "level_no ERROR = 40"

definition logger_level :: "string \<Rightarrow> log_level" where
  "logger_level v =
     (case map_of [(''debug'', DEBUG), (''info'', INFO), (''warn'', WARNING), (''error'', ERROR)]
             (str_lower v) of
        None \<Rightarrow> INFO
      | Some level \<Rightarrow> level)"

text \<open>
  \<open>_log_with_context(level, message, **kwargs)\<close>; each keyword argument comes with the
  text of its value.
\<close>

definition log_with_context ::
  "'w env \<Rightarrow> log_level \<Rightarrow> string \<Rightarrow> (string \<times> string) list \<Rightarrow> exn option" where
  "log_with_context env level msg kwargs =
     (let msg' =
            (if kwargs \<noteq> [] then
               msg @ '' ['' @ join '' | '' (map (\<lambda>(k, v). k @ ''='' @ v) kwargs) @ '']''
             else msg)
      in if level_no (logger_level (verbosity env)) \<le> level_no level
         then markup_error env msg' else None)"

definition logger_info :: "'w env \<Rightarrow> string \<Rightarrow> (string \<times> string) list \<Rightarrow> exn option" where
  "logger_info env msg kwargs = log_with_context env INFO msg kwargs"

definition logger_error :: "'w env \<Rightarrow> string \<Rightarrow> (string \<times> string) list \<Rightarrow> exn option" where
  "logger_error env msg kwargs = log_with_context env ERROR msg kwargs"

text \<open>\<open>print_message(msg)\<close>, with the default style and level.\<close>

definition print_message :: "'w env \<Rightarrow> string \<Rightarrow> exn option" where
  "print_message env msg = markup_error env msg"

text \<open>The icons, as the bytes of the string literals in logging.py.\<close>

definition icon_tool :: string where
  "icon_tool = [CHR 0xC3, CHR 0xB0, CHR 0xC5, CHR 0xB8, CHR 0xE2, CHR 0x80, CHR 0x9D, CHR 0xC2, CHR 0xA7]"

definition icon_success :: string where
  "icon_success = [CHR 0xC3, CHR 0xA2, CHR 0xC5, CHR 0x93, CHR 0xE2, CHR 0x80, CHR 0xA6]"

definition icon_failure :: string where
  "icon_failure = [CHR 0xC3, CHR 0xA2, CHR 0xC5, CHR 0x92]"

definition icon_timer :: string where
  "icon_timer = [CHR 0xC3, CHR 0xA2, CHR 0xC2, CHR 0xB1, CHR 0xC3, CHR 0xAF, CHR 0xC2, CHR 0xB8]"

text \<open>\<open>print_tool_call(tool_name, args)\<close>: one line, and a second one when \<open>args\<close> is truthy.\<close>

definition print_tool_call :: "'w env \<Rightarrow> pyval \<Rightarrow> pyval \<Rightarrow> exn option" where
  "print_tool_call env tool_name args =
     (case markup_error env
             (''[bold blue]'' @ icon_tool @ '' Tool Call:[/bold blue] '' @ py_str tool_name) of
        Some e \<Rightarrow> Some e
      | None \<Rightarrow>
          if truthy args then markup_error env (''[dim]Args: '' @ py_str args @ ''[/dim]'')
          else None)"

text \<open>\<open>print_tool_result(tool_name, result, success)\<close>; \<open>result[:100]\<close> is \<open>take 100\<close>.\<close>

definition print_tool_result :: "'w env \<Rightarrow> pyval \<Rightarrow> string \<Rightarrow> bool \<Rightarrow> exn option" where
  "print_tool_result env tool_name result success =
     (let icon = (if success then icon_success else icon_failure);
          style = (if success then ''green'' else ''red'')
      in markup_error env
           (''['' @ style @ '']'' @ icon @ '' '' @ py_str tool_name @ '':[/'' @ style @ ''] ''
            @ take 100 result @ ''...''))"

text \<open>\<open>print_timing(operation, duration)\<close>, the duration given as its text with two decimals.\<close>

definition print_timing :: "'w env \<Rightarrow> string \<Rightarrow> string \<Rightarrow> exn option" where
  "print_timing env operation duration_text =
     markup_error env
       (''[dim]'' @ icon_timer @ ''  '' @ operation @ '': '' @ duration_text @ ''s[/dim]'')"

text \<open>
  A logger call followed by the rest of a function: when the call raises, the function
  ends with that exception in the state reached so far.
\<close>

definition after_log :: "exn option \<Rightarrow> 'w state \<Rightarrow> (exn + 'a) \<times> 'w state \<Rightarrow> (exn + 'a) \<times> 'w state" where
  "after_log r st rest = (case r of Some e \<Rightarrow> (Inl e, st) | None \<Rightarrow> rest)"

subsection \<open>Dispatching a batch of tool calls\<close>

text \<open>
  The call \<open>registry.execute_tool(tool_name, **arguments)\<close> as CPython (3.10 and later)
  evaluates it: \<open>arguments\<close> must be a mapping; the first keyword among \<open>self\<close> and
  \<open>name\<close> collides with a parameter of \<open>execute_tool\<close>; a list or dict as name cannot
  be looked up in a dict; a number or boolean is no key of the registry.
\<close>

definition call_execute_tool ::
  "'w tool_registry \<Rightarrow> pyval \<Rightarrow> pyval \<Rightarrow> 'w state \<Rightarrow> (exn + pyval) \<times> 'w state" where
  "call_execute_tool reg tool_name arguments st =
     (case arguments of
        PDict kwargs \<Rightarrow>
          (case find (\<lambda>k. k = ''self'' \<or> k = ''name'') (map fst kwargs) of
             Some k \<Rightarrow>
               (Inl (TypeError (''ToolRegistry.execute_tool() got multiple values for argument ''
                                @ quote @ k @ quote)), st)
           | None \<Rightarrow>
               (case tool_name of
                  PStr name \<Rightarrow> execute_tool reg name kwargs st
                | PList _ \<Rightarrow> (Inl (TypeError (''unhashable type: '' @ quote @ ''list'' @ quote)), st)
                | PDict _ \<Rightarrow> (Inl (TypeError (''unhashable type: '' @ quote @ ''dict'' @ quote)), st)
                | _ \<Rightarrow> (Inl (ToolNotFoundError (py_str tool_name)), st)))
      | _ \<Rightarrow>
          (Inl (TypeError (''src.tools.ToolRegistry.execute_tool() argument after ** must be a mapping, not ''
                           @ type_name arguments)), st))"

text \<open>
  The \<open>try\<close> block of one round of \<open>_execute_tools\<close>. Besides the outcome (the result
  entry, or the exception that reaches \<open>except Exception\<close>) it returns what the local
  variable \<open>tool_name\<close> is bound to afterwards: the variable keeps the value of the
  previous round, or is unbound in the first round, when \<open>function_data.get\<close> fails
  before the assignment.
\<close>

definition tool_call_body ::
  "'w env \<Rightarrow> pydict \<Rightarrow> pyval option \<Rightarrow> 'w state \<Rightarrow> ((exn + pydict) \<times> pyval option) \<times> 'w state" where
  "tool_call_body env tool_call bound st =
     (case dict_get_default tool_call ''function'' (PDict []) of
        PDict function_data \<Rightarrow>
          (let tool_name = dict_get function_data ''name'';
               arguments = dict_get_default function_data ''arguments'' (PDict [])
           in if \<not> truthy tool_name then
                ((Inl (ToolError ''Missing tool name in tool call''), Some tool_name), st)
              else
                (case print_tool_call env tool_name arguments of
                   Some e \<Rightarrow> ((Inl e, Some tool_name), st)
                 | None \<Rightarrow>
                     (case call_execute_tool (registry env) tool_name arguments st of
                        (Inl e, st') \<Rightarrow>
                          ((Inl (case e of
                                   ToolNotFoundError _ \<Rightarrow>
                                     ToolError (''Tool '' @ quote @ py_str tool_name @ quote @ '' not found'')
                                 | _ \<Rightarrow> e), Some tool_name), st')
                      | (Inr result, st') \<Rightarrow>
                          (case print_tool_result env tool_name (py_str result) True of
                             Some e \<Rightarrow> ((Inl e, Some tool_name), st')
                           | None \<Rightarrow>
                               (case print_timing env (''Tool '' @ py_str tool_name)
                                       (duration env (world st) (world st')) of
                                  Some e \<Rightarrow> ((Inl e, Some tool_name), st')
                                | None \<Rightarrow>
                                    ((Inr [(''role'', PStr ''tool''),
                                           (''content'', PStr (py_str result)),
                                           (''tool_name'', tool_name)], Some tool_name), st'))))))
      | other \<Rightarrow>
          ((Inl (AttributeError (quote @ type_name other @ quote @ '' object has no attribute ''
                                 @ quote @ ''get'' @ quote)), bound), st))"

text \<open>
  The loop of \<open>_execute_tools\<close>. The handler of \<open>except Exception\<close> reads \<open>tool_name\<close> and
  prints the error text before it appends the result; when the variable is unbound, or
  when the print raises, the handler itself raises, and this exception leaves the
  function.
\<close>

fun execute_tools_loop ::
  "'w env \<Rightarrow> pydict list \<Rightarrow> pyval option \<Rightarrow> pydict list \<Rightarrow> 'w state
     \<Rightarrow> (exn + pydict list) \<times> 'w state" where
  "execute_tools_loop env [] bound results st = (Inr results, st)"
| "execute_tools_loop env (tool_call # rest) bound results st =
     (case tool_call_body env tool_call bound st of
        ((Inr entry, bound'), st') \<Rightarrow> execute_tools_loop env rest bound' (results @ [entry]) st'
      | ((Inl e, bound'), st') \<Rightarrow>
          (case bound' of
             None \<Rightarrow>
               (Inl (UnboundLocalError (''cannot access local variable '' @ quote @ ''tool_name''
                       @ quote @ '' where it is not associated with a value'')), st')
           | Some tool_name \<Rightarrow>
               (let error_text = ''Tool execution failed: '' @ exn_str e;
                    shown_name = (if truthy tool_name then tool_name else PStr ''unknown'')
                in after_log (print_tool_result env shown_name error_text False) st'
                     (execute_tools_loop env rest bound'
                        (results @ [[(''role'', PStr ''tool''),
                                     (''content'', PStr error_text),
                                     (''tool_name'', shown_name)]])
                        st'))))"

definition execute_tools ::
  "'w env \<Rightarrow> pydict list \<Rightarrow> 'w state \<Rightarrow> (exn + pydict list) \<times> 'w state" where
  "execute_tools env tool_calls st = execute_tools_loop env tool_calls None [] st"

subsection \<open>A turn\<close>

text \<open>
  The loop of \<open>_handle_tool_calls\<close> over the results: each goes to the context of the
  next LLM call and to the history.
\<close>

fun record_tool_results ::
  "'w env \<Rightarrow> pydict list \<Rightarrow> pydict list \<Rightarrow> 'w state \<Rightarrow> (exn + pydict list) \<times> 'w state" where
  "record_tool_results env [] context_messages st = (Inr context_messages, st)"
| "record_tool_results env (result # rest) context_messages st =
     (case dict_item result ''content'' of
        Inl e \<Rightarrow> (Inl e, st)
      | Inr content \<Rightarrow>
          (case dict_item result ''tool_name'' of
             Inl e \<Rightarrow> (Inl e, st)
           | Inr tool_name \<Rightarrow>
               record_tool_results env rest (context_messages @ [result])
                 (conversation_add_message env ''tool'' content [(''tool_name'', tool_name)] st)))"

text \<open>
  \<open>_handle_tool_calls\<close> calls itself for every further round of tool calls, with no
  bound of its own; the bound is the interpreter's, whose call stack is finite. The first
  argument is the number of nested calls of \<open>_handle_tool_calls\<close> that still fit; the
  call that does not fit raises \<open>RecursionError\<close>.
\<close>

fun handle_tool_calls ::
  "nat \<Rightarrow> 'w env \<Rightarrow> llm_response \<Rightarrow> pydict list \<Rightarrow> pyval list \<Rightarrow> 'w state
     \<Rightarrow> (exn + string) \<times> 'w state" where
  "handle_tool_calls 0 env response context_messages tools_schema st =
     (Inl (RecursionError (recursion_text env)), st)"
| "handle_tool_calls (Suc depth) env response context_messages tools_schema st =
     (let tool_calls = msg_tool_calls (message response);
          st1 = conversation_add_message env ''assistant'' (PStr (msg_content (message response)))
                  [(''tool_calls'', case tool_calls of None \<Rightarrow> PNone | Some tcs \<Rightarrow> PList (map PDict tcs))]
                  st
      in case tool_calls of
           None \<Rightarrow>
             (Inl (TypeError (''object of type '' @ quote @ ''NoneType'' @ quote @ '' has no len()'')), st1)
         | Some tcs \<Rightarrow>
             after_log (logger_info env (''Executing '' @ str_nat (length tcs) @ '' tool(s)'') []) st1
               (case execute_tools env tcs st1 of
                  (Inl e, st2) \<Rightarrow> (Inl e, st2)
                | (Inr tool_results, st2) \<Rightarrow>
                    (case record_tool_results env tool_results context_messages st2 of
                       (Inl e, st3) \<Rightarrow> (Inl e, st3)
                     | (Inr context_messages', st3) \<Rightarrow>
                         (case llm_chat env context_messages' None st3 of
                            (Inl e, st4) \<Rightarrow> (Inl e, st4)
                          | (Inr final_response, st4) \<Rightarrow>
                              after_log (print_timing env ''Final response'' (timing final_response)) st4
                                (if has_tool_calls final_response then
                                   after_log (logger_info env ''Additional tool calls detected'' []) st4
                                     (handle_tool_calls depth env final_response context_messages'
                                        tools_schema st4)
                                 else
                                   (let st5 = conversation_add_message env ''assistant''
                                                (PStr (msg_content (message final_response))) [] st4
                                    in after_log
                                         (print_message env
                                            (''Assistant: '' @ msg_content (message final_response)))
                                         st5
                                         (Inr (msg_content (message final_response)), st5)))))))"

text \<open>The \<open>try\<close> block of \<open>process_message\<close>.\<close>

definition process_message_body ::
  "nat \<Rightarrow> 'w env \<Rightarrow> string \<Rightarrow> 'w state \<Rightarrow> (exn + string) \<times> 'w state" where
  "process_message_body depth env user_input st =
     (let st1 = conversation_add_message env ''user'' (PStr user_input) [] st in
      case get_context_messages (max_history env) (history st1) (system_prompt env) of
        Inl e \<Rightarrow> (Inl e, st1)
      | Inr context_messages \<Rightarrow>
          after_log (logger_info env ''Processing user message''
                       [(''length'', str_nat (length user_input))]) st1
            (let tools_schema = get_tools_schema (registry env) in
             case llm_chat env context_messages (Some tools_schema) st1 of
               (Inl e, st2) \<Rightarrow> (Inl e, st2)
             | (Inr response, st2) \<Rightarrow>
                 after_log (print_timing env ''LLM response'' (timing response)) st2
                   (if has_tool_calls response then
                      handle_tool_calls depth env response context_messages tools_schema st2
                    else
                      (let st3 = conversation_add_message env ''assistant''
                                   (PStr (msg_content (message response))) [] st2
                       in after_log
                            (print_message env (''Assistant: '' @ msg_content (message response)))
                            st3
                            (Inr (msg_content (message response)), st3)))))"

text \<open>The text that the two \<open>except\<close> clauses of \<open>process_message\<close> build.\<close>

definition error_msg :: "exn \<Rightarrow> string" where
  "error_msg e =
     (if is_LLMError e then ''LLM Error: '' @ exn_str e else ''Unexpected error: '' @ exn_str e)"

text \<open>
  The first statement of each \<open>except\<close> clause: \<open>self.logger.error(error_msg)\<close> for an
  \<open>LLMError\<close>, \<open>self.logger.error(error_msg, exc_info=True)\<close> otherwise (the logger puts
  the keyword into the text).
\<close>

definition log_turn_error :: "'w env \<Rightarrow> exn \<Rightarrow> exn option" where
  "log_turn_error env e =
     (if is_LLMError e then logger_error env (error_msg e) []
      else logger_error env (error_msg e) [(''exc_info'', ''True'')])"

text \<open>
  \<open>process_message\<close>: the \<open>try\<close> block with its two handlers. A handler logs the text,
  appends the error message and returns the text; an exception raised inside a handler
  leaves the function. The result is a sum as for every function that can raise.
\<close>

definition process_message ::
  "nat \<Rightarrow> 'w env \<Rightarrow> string \<Rightarrow> 'w state \<Rightarrow> (exn + string) \<times> 'w state" where
  "process_message depth env user_input st =
     (case process_message_body depth env user_input st of
        (Inr text, st') \<Rightarrow> (Inr text, st')
      | (Inl e, st') \<Rightarrow>
          after_log (log_turn_error env e) st'
            (Inr (error_msg e), conversation_add_message env ''error'' (PStr (error_msg e)) [] st'))"

text \<open>The \<open>tools\<close> arguments of the LLM calls in a log, in order.\<close>

fun llm_tools_args :: "event list \<Rightarrow> pyval list option list" where
  "llm_tools_args [] = []"
| "llm_tools_args (LLMCall messages tools_arg # evs) = tools_arg # llm_tools_args evs"
| "llm_tools_args (_ # evs) = llm_tools_args evs"

section \<open>Auxiliary notions for the properties\<close>


text \<open>
  A sequence of \<open>add_message\<close> calls, each given by its role, content, time and keyword
  arguments, and the entry that each call builds.
\<close>

type_synonym append_call = "string \<times> pyval \<times> string \<times> pydict"

definition message_of :: "append_call \<Rightarrow> pydict" where
  "message_of a = (case a of (role, content, timestamp, kwargs) \<Rightarrow> new_message role content timestamp kwargs)"

definition add_messages :: "int \<Rightarrow> pydict list \<Rightarrow> append_call list \<Rightarrow> pydict list" where
  "add_messages max_hist hist calls =
     foldl (\<lambda>h (role, content, timestamp, kwargs). add_message max_hist role content timestamp kwargs h)
       hist calls"

text \<open>
  The length of a history that started empty, after \<open>n\<close> appends of messages that are
  not system messages: it grows to \<open>2 * max_history\<close>, and the next append cuts it to
  \<open>max_history\<close>.
\<close>

fun kept :: "nat \<Rightarrow> nat \<Rightarrow> nat" where
  "kept m 0 = 0"
| "kept m (Suc n) = (if kept m n + 1 > 2 * m then m else kept m n + 1)"

text \<open>
  The log of the second state is the log of the first followed by events that all
  satisfy \<open>P\<close>.
\<close>

definition extends_with :: "(event \<Rightarrow> bool) \<Rightarrow> 'w state \<Rightarrow> 'w state \<Rightarrow> bool" where
  "extends_with P st st' \<longleftrightarrow> (\<exists>evs. events st' = events st @ evs \<and> list_all P evs)"

text \<open>The error messages given to the history in a log.\<close>

definition error_appends :: "event list \<Rightarrow> event list" where
  "error_appends evs =
     filter (\<lambda>ev. case ev of Appended m \<Rightarrow> dict_get m ''role'' = PStr ''error'' | _ \<Rightarrow> False) evs"

text \<open>
  Test doubles, for concrete runs. Tools: one that returns \<open>42\<close> and one that raises
  with a given text. A tool-call request as the LLM client hands it over. A console that
  renders every text, and one that refuses the texts containing a given closing tag,
  as Rich refuses a closing tag that matches no open tag. An environment whose client
  answers its first call with the given tool calls and every later call with a plain
  message, and one whose client raises. The world is the number of LLM calls made so far.
\<close>

definition stub_tool :: "nat pyfunc" where
  "stub_tool = \<lparr>parameters = [], doc = None, call = (\<lambda>kwargs w. (Inr (PStr ''42''), w))\<rparr>"

definition raising_tool :: "string \<Rightarrow> nat pyfunc" where
  "raising_tool text =
     \<lparr>parameters = [], doc = None, call = (\<lambda>kwargs w. (Inl (OtherException text), w))\<rparr>"

definition stub_call :: "string \<Rightarrow> pydict" where
  "stub_call n =
     [(''function'', PDict [(''name'', PStr n), (''arguments'', PDict [(''x'', PInt 1)])])]"

definition stub_response :: "string \<Rightarrow> pydict list option \<Rightarrow> llm_response" where
  "stub_response text tcs =
     \<lparr>message = \<lparr>msg_role = ''assistant'', msg_content = text, msg_tool_calls = tcs,
                  msg_tool_name = None\<rparr>,
      timing = ''0.12'', model = ''stub'', total_tokens = None\<rparr>"

definition test_registry :: "string \<Rightarrow> nat tool_registry" where
  "test_registry text =
     register_all new_registry
       [(''answer'', stub_tool, None, None, None), (''broken'', raising_tool text, None, None, None)]"

definition stub_registry :: "nat tool_registry" where
  "stub_registry = test_registry ''boom''"

definition renders_all :: "string \<Rightarrow> exn option" where
  "renders_all text = None"

definition refuses_tag :: "string \<Rightarrow> string \<Rightarrow> exn option" where
  "refuses_tag tag text =
     (if str_in tag text then
        Some (MarkupError (''closing tag '' @ quote @ tag @ quote @ '' matches no open tag''))
      else None)"

definition test_env ::
  "pydict list \<Rightarrow> string \<Rightarrow> nat tool_registry \<Rightarrow> (string \<Rightarrow> exn option) \<Rightarrow> nat env" where
  "test_env tcs final reg console =
     \<lparr>chat = (\<lambda>messages tools_arg w.
                (Inr (if w = 0 then stub_response ''calling'' (Some tcs)
                      else stub_response final None), w + 1)),
      now = (\<lambda>w. (''T'', w)),
      duration = (\<lambda>w w'. ''0.00''),
      max_history = 10,
      verbosity = ''info'',
      registry = reg,
      system_prompt = ''P'',
      markup_error = console,
      recursion_text = ''maximum recursion depth exceeded''\<rparr>"

definition stub_env :: "pydict list \<Rightarrow> nat env" where
  "stub_env tcs = test_env tcs ''done'' stub_registry renders_all"

definition failing_llm_env :: "exn \<Rightarrow> (string \<Rightarrow> exn option) \<Rightarrow> nat env" where
  "failing_llm_env e console =
     \<lparr>chat = (\<lambda>messages tools_arg w. (Inl e, w)),
      now = (\<lambda>w. (''T'', w)),
      duration = (\<lambda>w w'. ''0.00''),
      max_history = 10,
      verbosity = ''info'',
      registry = new_registry,
      system_prompt = ''P'',
      markup_error = console,
      recursion_text = ''maximum recursion depth exceeded''\<rparr>"

text \<open>
  Two views of the outcome of a turn: the calls of tool handlers in a log, and the role
  and content of each entry of a history.
\<close>

definition tool_invocations :: "event list \<Rightarrow> event list" where
  "tool_invocations evs =
     filter (\<lambda>ev. case ev of ToolInvoked n kw \<Rightarrow> True | _ \<Rightarrow> False) evs"

definition roles_and_contents :: "pydict list \<Rightarrow> (pyval \<times> pyval) list" where
  "roles_and_contents hist = map (\<lambda>m. (dict_get m ''role'', dict_get m ''content'')) hist"

section \<open>Properties of the registry\<close>

subsection \<open>Category inference\<close>

lemma lower_char_upper:
  "map lower_char ''ABCDEFGHIJKLMNOPQRSTUVWXYZ'' = ''abcdefghijklmnopqrstuvwxyz''"
  by (simp add: lower_char_def)

lemma lower_char_other:
  assumes "c \<notin> set ''ABCDEFGHIJKLMNOPQRSTUVWXYZ''"
  shows "lower_char c = c"
  using assms by (simp add: lower_char_def)

text \<open>
  C2, as stated, fails on the tools of the repository itself: the rules are tried in a
  fixed order, so \<open>generate_and_save_todo\<close> contains \<open>save\<close> and is a generation tool, and
  \<open>search_and_save\<close> contains \<open>search\<close> and is a storage tool.
\<close>

theorem auto_categorize_counterexample:
  "str_in ''save'' ''generate_and_save_todo''
   \<and> auto_categorize ''generate_and_save_todo'' = ''generation''
   \<and> auto_categorize ''generate_and_save_todo'' \<noteq> ''storage''
   \<and> str_in ''search'' ''search_and_save''
   \<and> auto_categorize ''search_and_save'' = ''storage''
   \<and> auto_categorize ''search_and_save'' \<noteq> ''search''"
  by (simp add: auto_categorize_def str_lower_def lower_char_def str_in_def sublist_code)

text \<open>
  C2 (amended): the rules are tried in a fixed order on the lower-cased name, the name
  with each of the letters \<open>A\<close> to \<open>Z\<close> replaced by its small letter and every other
  character kept. If the lower-cased name contains \<open>generate\<close>, the category is
  generation. Otherwise, if it contains \<open>save\<close>, \<open>write\<close> or \<open>store\<close>, the category is
  storage. Otherwise, if it contains \<open>search\<close>, \<open>find\<close> or \<open>query\<close>, the category is
  search. If it contains none of the words of any rule, the category is utility.
\<close>

theorem auto_categorize_priority:
  "(str_in ''generate'' (str_lower name) \<longrightarrow> auto_categorize name = ''generation'')
   \<and> (\<not> str_in ''generate'' (str_lower name)
      \<and> (str_in ''save'' (str_lower name) \<or> str_in ''write'' (str_lower name)
          \<or> str_in ''store'' (str_lower name))
      \<longrightarrow> auto_categorize name = ''storage'')
   \<and> (\<not> str_in ''generate'' (str_lower name)
      \<and> \<not> (str_in ''save'' (str_lower name) \<or> str_in ''write'' (str_lower name)
             \<or> str_in ''store'' (str_lower name))
      \<and> (str_in ''search'' (str_lower name) \<or> str_in ''find'' (str_lower name)
          \<or> str_in ''query'' (str_lower name))
      \<longrightarrow> auto_categorize name = ''search'')
   \<and> ((\<forall>word \<in> set [''generate'', ''save'', ''write'', ''store'', ''search'', ''find'', ''query'',
                      ''read'', ''list'', ''get'', ''fetch'', ''email'', ''send'', ''message'',
                      ''_and_'', ''calculate'', ''math'', ''compute'', ''password'', ''encrypt'',
                      ''hash'']. \<not> str_in word (str_lower name))
      \<longrightarrow> auto_categorize name = ''utility'')
   \<and> str_lower name = map lower_char name
   \<and> map lower_char ''ABCDEFGHIJKLMNOPQRSTUVWXYZ'' = ''abcdefghijklmnopqrstuvwxyz''
   \<and> (\<forall>c. c \<notin> set ''ABCDEFGHIJKLMNOPQRSTUVWXYZ'' \<longrightarrow> lower_char c = c)"
proof (intro conjI impI allI)
  assume "str_in ''generate'' (str_lower name)"
  then show "auto_categorize name = ''generation''"
    by (simp add: auto_categorize_def Let_def)
next
  assume "\<not> str_in ''generate'' (str_lower name)
      \<and> (str_in ''save'' (str_lower name) \<or> str_in ''write'' (str_lower name)
          \<or> str_in ''store'' (str_lower name))"
  then show "auto_categorize name = ''storage''"
    by (auto simp add: auto_categorize_def Let_def)
next
  assume "\<not> str_in ''generate'' (str_lower name)
      \<and> \<not> (str_in ''save'' (str_lower name) \<or> str_in ''write'' (str_lower name)
             \<or> str_in ''store'' (str_lower name))
      \<and> (str_in ''search'' (str_lower name) \<or> str_in ''find'' (str_lower name)
          \<or> str_in ''query'' (str_lower name))"
  then show "auto_categorize name = ''search''"
    by (auto simp add: auto_categorize_def Let_def)
next
  assume "\<forall>word \<in> set [''generate'', ''save'', ''write'', ''store'', ''search'', ''find'', ''query'',
                      ''read'', ''list'', ''get'', ''fetch'', ''email'', ''send'', ''message'',
                      ''_and_'', ''calculate'', ''math'', ''compute'', ''password'', ''encrypt'',
                      ''hash'']. \<not> str_in word (str_lower name)"
  then show "auto_categorize name = ''utility''"
    by (simp add: auto_categorize_def Let_def)
next
  show "str_lower name = map lower_char name"
    by (simp add: str_lower_def)
next
  show "map lower_char ''ABCDEFGHIJKLMNOPQRSTUVWXYZ'' = ''abcdefghijklmnopqrstuvwxyz''"
    by (rule lower_char_upper)
next
  fix c :: char
  assume "c \<notin> set ''ABCDEFGHIJKLMNOPQRSTUVWXYZ''"
  then show "lower_char c = c"
    by (rule lower_char_other)
qed

text \<open>
  The four cases at one name each: the capitals of \<open>SAVE_File\<close> and \<open>Web_Search\<close> are
  lower-cased before the words are looked for.
\<close>

theorem auto_categorize_priority_witness:
  "auto_categorize ''Generate_Report'' = ''generation''
   \<and> auto_categorize ''SAVE_File'' = ''storage''
   \<and> auto_categorize ''Web_Search'' = ''search''
   \<and> auto_categorize ''foo_bar'' = ''utility''"
  using auto_categorize_priority [of "''Generate_Report''"]
    auto_categorize_priority [of "''SAVE_File''"]
    auto_categorize_priority [of "''Web_Search''"]
    auto_categorize_priority [of "''foo_bar''"]
  by (simp add: str_lower_def lower_char_def str_in_def sublist_code)

subsection \<open>Schema inference\<close>

lemma update_fresh_key: "k \<notin> fst ` set al \<Longrightarrow> AList.update k v al = al @ [(k, v)]"
  by (induction al) auto

lemma schema_fold:
  assumes "distinct (map param_name ps)"
    and "set (map param_name ps) \<inter> fst ` set props = {}"
  shows "foldl (schema_step d) (props, req) ps =
           (props @ map (\<lambda>p. (param_name p, PDict (param_schema d p)))
                      (filter (\<lambda>p. kind p \<noteq> VAR_POSITIONAL \<and> kind p \<noteq> VAR_KEYWORD) ps),
            req @ map param_name
                      (filter (\<lambda>p. kind p \<noteq> VAR_POSITIONAL \<and> kind p \<noteq> VAR_KEYWORD \<and> default p = None) ps))"
  using assms
proof (induction ps arbitrary: props req)
  case Nil
  then show ?case by simp
next
  case (Cons p ps)
  show ?case
  proof (cases "kind p = VAR_POSITIONAL \<or> kind p = VAR_KEYWORD")
    case True
    have "foldl (schema_step d) (props, req) (p # ps) = foldl (schema_step d) (props, req) ps"
      using True by (simp add: schema_step_def)
    moreover have "distinct (map param_name ps)" "set (map param_name ps) \<inter> fst ` set props = {}"
      using Cons.prems by auto
    ultimately show ?thesis
      using Cons.IH [of props req] True by auto
  next
    case False
    have fresh: "param_name p \<notin> fst ` set props"
      using Cons.prems(2) by auto
    let ?props = "props @ [(param_name p, PDict (param_schema d p))]"
    let ?req = "if default p = None then req @ [param_name p] else req"
    have step: "foldl (schema_step d) (props, req) (p # ps) = foldl (schema_step d) (?props, ?req) ps"
      using False fresh by (simp add: schema_step_def update_fresh_key)
    have "distinct (map param_name ps)" "set (map param_name ps) \<inter> fst ` set ?props = {}"
      using Cons.prems by auto
    from Cons.IH [OF this, of ?req] step False show ?thesis
      by auto
  qed
qed

lemma param_schema_type: "map_of (param_schema d p) ''type'' = Some (PStr (param_type (annotation p)))"
  by (cases "param_description d (param_name p)") (simp_all add: param_schema_def Let_def)

lemma map_of_properties:
  assumes "distinct (map param_name ps)" and "p \<in> set ps"
  shows "map_of (map (\<lambda>p. (param_name p, PDict (param_schema d p))) ps) (param_name p)
           = Some (PDict (param_schema d p))"
proof -
  have "map_of (map (\<lambda>p. (param_name p, PDict (param_schema d p))) ps) (param_name p)
        = Some (PDict (param_schema d p))"
    using assms
    by (intro map_of_is_SomeI) (auto simp: comp_def)
  then show ?thesis .
qed

text \<open>
  C6: the schema inferred for a handler. For a signature whose parameter names are
  distinct (Python admits no other), the properties are the parameters that are not
  \<open>*args\<close> or \<open>**kwargs\<close>, in order; the type of each follows its annotation (int to
  integer, float to number, bool to boolean, list to array, dict to object, anything
  else and no annotation to string); the required list names exactly those of them
  that have no default. For \<open>f(a: string, b: int = 0)\<close>, whatever its docstring and
  behaviour, \<open>required\<close> is \<open>["a"]\<close> and the type of \<open>b\<close> is integer.
\<close>

theorem auto_generate_schema_inference:
  "(distinct (map param_name (parameters f)) \<longrightarrow>
      (\<exists>properties.
         auto_generate_schema f =
           PDict [(''type'', PStr ''object''),
                  (''properties'', PDict properties),
                  (''required'', PList (map (\<lambda>p. PStr (param_name p))
                      (filter (\<lambda>p. kind p \<noteq> VAR_POSITIONAL \<and> kind p \<noteq> VAR_KEYWORD \<and> default p = None)
                         (parameters f))))]
         \<and> map fst properties =
             map param_name (filter (\<lambda>p. kind p \<noteq> VAR_POSITIONAL \<and> kind p \<noteq> VAR_KEYWORD) (parameters f))
         \<and> (\<forall>p \<in> set (parameters f). kind p \<noteq> VAR_POSITIONAL \<and> kind p \<noteq> VAR_KEYWORD \<longrightarrow>
               (\<exists>ps. map_of properties (param_name p) = Some (PDict ps)
                  \<and> map_of ps ''type'' =
                      Some (PStr (case annotation p of
                                    AnnInt \<Rightarrow> ''integer'' | AnnFloat \<Rightarrow> ''number''
                                  | AnnBool \<Rightarrow> ''boolean'' | AnnList \<Rightarrow> ''array''
                                  | AnnDict \<Rightarrow> ''object'' | _ \<Rightarrow> ''string''))))))
   \<and> (parameters f =
         [\<lparr>param_name = ''a'', kind = ka, annotation = AnnOther ''string'', default = None\<rparr>,
          \<lparr>param_name = ''b'', kind = kb, annotation = AnnInt, default = Some (PInt 0)\<rparr>]
       \<and> ka \<notin> {VAR_POSITIONAL, VAR_KEYWORD} \<and> kb \<notin> {VAR_POSITIONAL, VAR_KEYWORD} \<longrightarrow>
       (\<exists>properties b_schema.
          auto_generate_schema f =
            PDict [(''type'', PStr ''object''),
                   (''properties'', PDict properties),
                   (''required'', PList [PStr ''a''])]
          \<and> map_of properties ''b'' = Some (PDict b_schema)
          \<and> map_of b_schema ''type'' = Some (PStr ''integer'')))"
proof (intro conjI impI)
  let ?nv = "\<lambda>p. kind p \<noteq> VAR_POSITIONAL \<and> kind p \<noteq> VAR_KEYWORD"
  assume d: "distinct (map param_name (parameters f))"
  let ?props = "map (\<lambda>p. (param_name p, PDict (param_schema (doc f) p))) (filter ?nv (parameters f))"
  have fold: "foldl (schema_step (doc f)) ([], []) (parameters f) =
                (?props, map param_name (filter (\<lambda>p. ?nv p \<and> default p = None) (parameters f)))"
    using schema_fold [OF d, of "[]" "doc f" "[]"] by (simp add: conj_assoc)
  have 1: "auto_generate_schema f =
           PDict [(''type'', PStr ''object''),
                  (''properties'', PDict ?props),
                  (''required'', PList (map (\<lambda>p. PStr (param_name p))
                      (filter (\<lambda>p. kind p \<noteq> VAR_POSITIONAL \<and> kind p \<noteq> VAR_KEYWORD \<and> default p = None)
                         (parameters f))))]"
    by (simp add: auto_generate_schema_def fold comp_def)
  have 2: "map fst ?props = map param_name (filter ?nv (parameters f))"
    by (simp add: comp_def)
  have 3: "\<exists>ps. map_of ?props (param_name p) = Some (PDict ps)
                  \<and> map_of ps ''type'' =
                      Some (PStr (case annotation p of
                                    AnnInt \<Rightarrow> ''integer'' | AnnFloat \<Rightarrow> ''number''
                                  | AnnBool \<Rightarrow> ''boolean'' | AnnList \<Rightarrow> ''array''
                                  | AnnDict \<Rightarrow> ''object'' | _ \<Rightarrow> ''string''))"
    if "p \<in> set (parameters f)" "?nv p" for p
  proof -
    have "distinct (map param_name (filter ?nv (parameters f)))"
      using d by (rule distinct_map_filter)
    moreover have "p \<in> set (filter ?nv (parameters f))"
      using that by simp
    ultimately have "map_of ?props (param_name p) = Some (PDict (param_schema (doc f) p))"
      by (rule map_of_properties)
    moreover have "param_type (annotation p) = (case annotation p of
                                    AnnInt \<Rightarrow> ''integer'' | AnnFloat \<Rightarrow> ''number''
                                  | AnnBool \<Rightarrow> ''boolean'' | AnnList \<Rightarrow> ''array''
                                  | AnnDict \<Rightarrow> ''object'' | _ \<Rightarrow> ''string'')"
      by (cases "annotation p") simp_all
    ultimately show ?thesis
      using param_schema_type [of "doc f" p] by simp
  qed
  from 1 2 3 show "\<exists>properties.
         auto_generate_schema f =
           PDict [(''type'', PStr ''object''),
                  (''properties'', PDict properties),
                  (''required'', PList (map (\<lambda>p. PStr (param_name p))
                      (filter (\<lambda>p. kind p \<noteq> VAR_POSITIONAL \<and> kind p \<noteq> VAR_KEYWORD \<and> default p = None)
                         (parameters f))))]
         \<and> map fst properties =
             map param_name (filter (\<lambda>p. kind p \<noteq> VAR_POSITIONAL \<and> kind p \<noteq> VAR_KEYWORD) (parameters f))
         \<and> (\<forall>p \<in> set (parameters f). kind p \<noteq> VAR_POSITIONAL \<and> kind p \<noteq> VAR_KEYWORD \<longrightarrow>
               (\<exists>ps. map_of properties (param_name p) = Some (PDict ps)
                  \<and> map_of ps ''type'' =
                      Some (PStr (case annotation p of
                                    AnnInt \<Rightarrow> ''integer'' | AnnFloat \<Rightarrow> ''number''
                                  | AnnBool \<Rightarrow> ''boolean'' | AnnList \<Rightarrow> ''array''
                                  | AnnDict \<Rightarrow> ''object'' | _ \<Rightarrow> ''string''))))"
    by blast
next
  assume a: "parameters f =
         [\<lparr>param_name = ''a'', kind = ka, annotation = AnnOther ''string'', default = None\<rparr>,
          \<lparr>param_name = ''b'', kind = kb, annotation = AnnInt, default = Some (PInt 0)\<rparr>]
       \<and> ka \<notin> {VAR_POSITIONAL, VAR_KEYWORD} \<and> kb \<notin> {VAR_POSITIONAL, VAR_KEYWORD}"
  let ?pa = "\<lparr>param_name = ''a'', kind = ka, annotation = AnnOther ''string'', default = None\<rparr>"
  let ?pb = "\<lparr>param_name = ''b'', kind = kb, annotation = AnnInt, default = Some (PInt 0)\<rparr>"
  have "auto_generate_schema f =
            PDict [(''type'', PStr ''object''),
                   (''properties'', PDict [(''a'', PDict (param_schema (doc f) ?pa)),
                                          (''b'', PDict (param_schema (doc f) ?pb))]),
                   (''required'', PList [PStr ''a''])]"
    using a by (simp add: auto_generate_schema_def schema_step_def)
  moreover have "map_of (param_schema (doc f) ?pb) ''type'' = Some (PStr ''integer'')"
    using param_schema_type [of "doc f" ?pb] by simp
  ultimately show "\<exists>properties b_schema.
          auto_generate_schema f =
            PDict [(''type'', PStr ''object''),
                   (''properties'', PDict properties),
                   (''required'', PList [PStr ''a''])]
          \<and> map_of properties ''b'' = Some (PDict b_schema)
          \<and> map_of b_schema ''type'' = Some (PStr ''integer'')"
    by simp
qed

text \<open>The handler \<open>f(a: string, b: int = 0)\<close> without a docstring.\<close>

theorem auto_generate_schema_inference_witness:
  "distinct (map param_name (parameters
      \<lparr>parameters = [\<lparr>param_name = ''a'', kind = POSITIONAL_OR_KEYWORD, annotation = AnnOther ''string'', default = None\<rparr>,
                     \<lparr>param_name = ''b'', kind = POSITIONAL_OR_KEYWORD, annotation = AnnInt, default = Some (PInt 0)\<rparr>],
       doc = None, call = (\<lambda>kw (w::unit). (Inr (PStr ''ok''), w))\<rparr>))
   \<and> auto_generate_schema
      \<lparr>parameters = [\<lparr>param_name = ''a'', kind = POSITIONAL_OR_KEYWORD, annotation = AnnOther ''string'', default = None\<rparr>,
                     \<lparr>param_name = ''b'', kind = POSITIONAL_OR_KEYWORD, annotation = AnnInt, default = Some (PInt 0)\<rparr>],
       doc = None, call = (\<lambda>kw (w::unit). (Inr (PStr ''ok''), w))\<rparr>
     = PDict [(''type'', PStr ''object''),
              (''properties'', PDict [(''a'', PDict [(''type'', PStr ''string'')]),
                                     (''b'', PDict [(''type'', PStr ''integer'')])]),
              (''required'', PList [PStr ''a''])]"
  using auto_generate_schema_inference
    [of "\<lparr>parameters = [\<lparr>param_name = ''a'', kind = POSITIONAL_OR_KEYWORD, annotation = AnnOther ''string'', default = None\<rparr>,
                     \<lparr>param_name = ''b'', kind = POSITIONAL_OR_KEYWORD, annotation = AnnInt, default = Some (PInt 0)\<rparr>],
       doc = None, call = (\<lambda>kw (w::unit). (Inr (PStr ''ok''), w))\<rparr>" POSITIONAL_OR_KEYWORD POSITIONAL_OR_KEYWORD]
  by (simp add: auto_generate_schema_def schema_step_def param_schema_def param_description_def)

subsection \<open>Consistency of the two dicts\<close>









lemma register_all_append:
  "register_all reg (xs @ ys) = register_all (register_all reg xs) ys"
  by (simp add: register_all_def)






section \<open>Properties of the conversation manager\<close>

subsection \<open>Trimming\<close>

lemma new_message_role_aux:
  assumes "''role'' \<notin> fst ` set kwargs"
  shows "map_of (foldl (\<lambda>message (key, value). if value \<noteq> PNone then AList.update key value message else message)
           msg kwargs) ''role'' = map_of msg ''role''"
  using assms
proof (induction kwargs arbitrary: msg)
  case Nil
  then show ?case by simp
next
  case (Cons kv kwargs)
  obtain k v where kv: "kv = (k, v)" by (cases kv)
  have "k \<noteq> ''role''" "''role'' \<notin> fst ` set kwargs"
    using Cons.prems kv by auto
  then show ?case
    using Cons.IH [of "if v \<noteq> PNone then AList.update k v msg else msg"]
    by (simp add: kv update_conv')
qed

lemma new_message_role:
  assumes "''role'' \<notin> fst ` set kwargs"
  shows "dict_get (new_message role content timestamp kwargs) ''role'' = PStr role"
  using new_message_role_aux [OF assms] by (simp add: new_message_def dict_get_def)

lemma add_messages_snoc:
  "add_messages M hist (calls @ [(r, c, t, kw)]) = add_message M r c t kw (add_messages M hist calls)"
  by (simp add: add_messages_def)

lemma kept_le: "kept m n \<le> n"
  by (induction n) auto

lemma kept_bound: "kept m n \<le> 2 * m"
  by (induction n) auto

lemma kept_small: "n \<le> 2 * m \<Longrightarrow> kept m n = n"
  by (induction n) auto

lemma kept_cycle: "kept m (2 * m + 1 + j) = m + j mod (m + 1)"
proof (induction j)
  case 0
  have "kept m (2 * m) = 2 * m" by (simp add: kept_small)
  then show ?case by simp
next
  case (Suc j)
  define p where "p = 2 * m + 1 + j"
  have ih: "kept m p = m + j mod (m + 1)"
    unfolding p_def by (rule Suc)
  have unfold: "kept m (2 * m + 1 + Suc j) = (if kept m p + 1 > 2 * m then m else kept m p + 1)"
  proof -
    have "2 * m + 1 + Suc j = Suc p" by (simp add: p_def)
    then show ?thesis by (simp only: kept.simps)
  qed
  have le: "j mod (m + 1) \<le> m"
    using mod_less_divisor [of "m + 1" j] by simp
  show ?case
  proof (cases "j mod (m + 1) = m")
    case True
    then have "Suc j mod (m + 1) = 0"
      by (simp add: mod_Suc)
    then show ?thesis unfolding unfold ih using True by simp
  next
    case False
    then have "Suc j mod (m + 1) = Suc (j mod (m + 1))"
      by (simp add: mod_Suc)
    moreover have "j mod (m + 1) < m" using False le by linarith
    ultimately show ?thesis unfolding unfold ih by simp
  qed
qed

lemma kept_closed:
  "kept m n = (if n \<le> 2 * m then n else m + (n - 2 * m - 1) mod (m + 1))"
proof (cases "n \<le> 2 * m")
  case True
  then show ?thesis by (simp add: kept_small)
next
  case False
  then have "n = 2 * m + 1 + (n - 2 * m - 1)" by simp
  then have "kept m n = m + (n - 2 * m - 1) mod (m + 1)"
    using kept_cycle [of m "n - 2 * m - 1"] by simp
  then show ?thesis using False by simp
qed

lemma add_messages_kept:
  assumes "0 < M"
    and "\<forall>a \<in> set calls. fst a \<noteq> ''system'' \<and> ''role'' \<notin> fst ` set (snd (snd (snd a)))"
  shows "add_messages M [] calls =
           drop (length calls - kept (nat M) (length calls)) (map message_of calls)"
  using assms(2)
proof (induction calls rule: rev_induct)
  case Nil
  then show ?case by (simp add: add_messages_def)
next
  case (snoc a calls)
  obtain r c t kw where a: "a = (r, c, t, kw)" by (cases a) auto
  let ?n = "length calls"
  let ?k = "kept (nat M) ?n"
  let ?msgs = "map message_of calls"
  let ?m = "new_message r c t kw"
  have nonsys: "\<forall>b \<in> set (calls @ [a]). dict_get (message_of b) ''role'' \<noteq> PStr ''system''"
  proof
    fix b assume "b \<in> set (calls @ [a])"
    then have b: "fst b \<noteq> ''system'' \<and> ''role'' \<notin> fst ` set (snd (snd (snd b)))"
      using snoc.prems by blast
    obtain r' c' t' kw' where b': "b = (r', c', t', kw')" by (cases b) auto
    show "dict_get (message_of b) ''role'' \<noteq> PStr ''system''"
      using b b' new_message_role [of kw' r' c' t'] by (simp add: message_of_def)
  qed
  have ih: "add_messages M [] calls = drop (?n - ?k) ?msgs"
    using snoc by simp
  have kn: "?k \<le> ?n" by (rule kept_le)
  define msgs' where "msgs' = map message_of (calls @ [a])"
  define hist' where "hist' = drop (?n - ?k) ?msgs @ [?m]"
  have hist'_eq: "hist' = drop (?n - ?k) msgs'"
    by (simp add: hist'_def msgs'_def a message_of_def)
  have len': "length hist' = ?k + 1"
    using kn by (simp add: hist'_def)
  have step: "add_messages M [] (calls @ [a]) =
      (if int (length hist') > M * 2
       then filter (\<lambda>msg. dict_get msg ''role'' = PStr ''system'') hist' @ slice_from (- M) hist'
       else hist')"
    unfolding a add_messages_snoc ih hist'_def by (simp add: add_message_def Let_def)
  show ?case
  proof (cases "?k + 1 > 2 * nat M")
    case True
    then have big: "int (length hist') > M * 2"
      using len' assms(1) by linarith
    have "set hist' \<subseteq> set msgs'"
      unfolding hist'_eq by (rule set_drop_subset)
    then have "set hist' \<subseteq> message_of ` set (calls @ [a])"
      by (simp add: msgs'_def)
    then have nosys: "filter (\<lambda>msg. dict_get msg ''role'' = PStr ''system'') hist' = []"
      using nonsys unfolding filter_empty_conv by blast
    have "nat (max 0 (int (length hist') + - M)) = ?k + 1 - nat M"
      using len' assms(1) True by linarith
    then have "slice_from (- M) hist' = drop (?k + 1 - nat M) hist'"
      using assms(1) unfolding slice_from_def Let_def by simp
    also have "\<dots> = drop (?k + 1 - nat M + (?n - ?k)) msgs'"
      unfolding hist'_eq by (simp only: drop_drop)
    also have "?k + 1 - nat M + (?n - ?k) = Suc ?n - nat M"
      using kn True by linarith
    finally have "slice_from (- M) hist' = drop (Suc ?n - nat M) msgs'" .
    then have "add_messages M [] (calls @ [a]) = drop (Suc ?n - nat M) msgs'"
      using step big nosys by simp
    moreover have "kept (nat M) (length (calls @ [a])) = nat M"
      using True by simp
    ultimately show ?thesis by (simp add: msgs'_def)
  next
    case False
    then have small: "\<not> int (length hist') > M * 2"
      using len' assms(1) by linarith
    have "kept (nat M) (length (calls @ [a])) = ?k + 1"
      using False by simp
    moreover have "?n - ?k = length (calls @ [a]) - (?k + 1)" by simp
    moreover have "add_messages M [] (calls @ [a]) = drop (?n - ?k) msgs'"
      using step small hist'_eq by simp
    ultimately show ?thesis by (simp only: msgs'_def)
  qed
qed

text \<open>
  C1 (amended): with a positive \<open>max_history\<close>, after any number of appends of messages
  that are not system messages to an empty history (each append has a role other than
  system and no keyword argument named \<open>role\<close>, which Python would refuse), the history
  is a suffix of the appended messages, in their order. Its length is the number of appends up to
  \<open>2 * max_history\<close>; beyond that it is \<open>max_history\<close> right after a trim and grows by
  one with each append until the next trim. After \<open>2 * max_history + 5\<close> appends it is
  \<open>max_history + 4 mod (max_history + 1)\<close>, which is \<open>max_history + 4\<close> from
  \<open>max_history = 4\<close> on; it is \<open>max_history\<close> after \<open>2 * max_history + 1\<close> appends.
\<close>

theorem history_trimming:
  assumes "0 < M"
    and "\<forall>(role, content, timestamp, kwargs) \<in> set calls.
           role \<noteq> ''system'' \<and> ''role'' \<notin> fst ` set kwargs"
    and "k = (if length calls \<le> 2 * nat M then length calls
              else nat M + (length calls - 2 * nat M - 1) mod (nat M + 1))"
  shows "add_messages M [] calls = drop (length calls - k) (map message_of calls)
    \<and> length (add_messages M [] calls) = k
    \<and> (length calls = 2 * nat M + 5 \<longrightarrow> k = nat M + 4 mod (nat M + 1))
    \<and> (length calls = 2 * nat M + 5 \<and> 4 \<le> M \<longrightarrow> k = nat M + 4)
    \<and> (length calls = 2 * nat M + 1 \<longrightarrow> k = nat M)"
proof -
  have k: "k = kept (nat M) (length calls)"
    using assms(3) kept_closed [of "nat M" "length calls"] by simp
  have ns: "\<forall>a \<in> set calls. fst a \<noteq> ''system'' \<and> ''role'' \<notin> fst ` set (snd (snd (snd a)))"
    using assms(2) by (simp add: case_prod_beta)
  have 1: "add_messages M [] calls = drop (length calls - k) (map message_of calls)"
    unfolding k using assms(1) ns by (rule add_messages_kept)
  have "k \<le> length calls" unfolding k by (rule kept_le)
  then have 2: "length (add_messages M [] calls) = k"
    unfolding 1 by simp
  have 3: "k = nat M + 4 mod (nat M + 1)" if "length calls = 2 * nat M + 5"
    using that assms(3) by simp
  have 4: "k = nat M + 4" if "length calls = 2 * nat M + 5 \<and> 4 \<le> M"
  proof -
    have "(4::nat) < nat M + 1" using that by linarith
    then have "(4::nat) mod (nat M + 1) = 4" by (rule mod_less)
    then show ?thesis using 3 that by simp
  qed
  have 5: "k = nat M" if "length calls = 2 * nat M + 1"
    using that assms(3) by simp
  from 1 2 3 4 5 show ?thesis by blast
qed

text \<open>
  C1 as stated fails for the default \<open>max_history = 10\<close>: after 25 appends of user
  messages 14 are left, not 10.
\<close>

theorem history_trimming_counterexample:
  "length (add_messages 10 [] (map (\<lambda>i. (''user'', PInt (int i), ''t'', [])) [0..<25])) = 14
   \<and> length (filter (\<lambda>msg. dict_get msg ''role'' \<noteq> PStr ''system'')
        (add_messages 10 [] (map (\<lambda>i. (''user'', PInt (int i), ''t'', [])) [0..<25]))) \<noteq> 10"
  by code_simp

text \<open>Nine appends with \<open>max_history = 2\<close> leave three messages.\<close>

theorem history_trimming_witness:
  "length (add_messages 2 [] (replicate 9 (''user'', PStr ''hi'', ''t'', []))) = 3"
proof -
  have m: "(0::int) < 2" by simp
  have ns: "\<forall>(role, content, timestamp, kwargs) \<in> set (replicate 9 (''user'', PStr ''hi'', ''t'', [])).
              role \<noteq> ''system'' \<and> ''role'' \<notin> fst ` set kwargs"
    by simp
  have k: "3 = (if length (replicate 9 (''user'', PStr ''hi'', ''t'', [])) \<le> 2 * nat 2
                then length (replicate 9 (''user'', PStr ''hi'', ''t'', []))
                else nat 2 + (length (replicate 9 (''user'', PStr ''hi'', ''t'', [])) - 2 * nat 2 - 1) mod (nat 2 + 1))"
    by simp
  show ?thesis
    using history_trimming [OF m ns k] by simp
qed

subsection \<open>The context of an LLM call\<close>

lemma slice_from_last:
  assumes "0 < M"
  shows "slice_from (- M) xs = drop (length xs - nat M) xs"
proof -
  have "nat (max 0 (int (length xs) + - M)) = length xs - nat M"
    using assms by linarith
  then show ?thesis
    using assms by (simp add: slice_from_def Let_def)
qed

lemma context_entries_wellformed:
  assumes "\<forall>msg \<in> set msgs. map_of msg ''role'' \<noteq> None \<and> map_of msg ''content'' \<noteq> None"
  shows "context_entries msgs =
           Inr (map (\<lambda>msg. context_msg msg (dict_get msg ''role'') (dict_get msg ''content''))
                  (filter (\<lambda>msg. dict_get msg ''role'' \<in> {PStr ''user'', PStr ''assistant'', PStr ''tool''})
                     msgs))"
  using assms
proof (induction msgs)
  case Nil
  then show ?case by simp
next
  case (Cons msg msgs)
  obtain r c where rc: "map_of msg ''role'' = Some r" "map_of msg ''content'' = Some c"
    using Cons.prems by auto
  have ih: "context_entries msgs =
           Inr (map (\<lambda>msg. context_msg msg (dict_get msg ''role'') (dict_get msg ''content''))
                  (filter (\<lambda>msg. dict_get msg ''role'' \<in> {PStr ''user'', PStr ''assistant'', PStr ''tool''})
                     msgs))"
    using Cons by simp
  show ?case
    by (simp add: ih rc dict_item_def dict_get_def)
qed

lemma context_msg_keys:
  "map_of (context_msg msg r c) k =
     (if k = ''role'' then Some r
      else if k = ''content'' then Some c
      else if k = ''tool_calls'' \<or> k = ''tool_name'' then map_of msg k
      else None)"
  by (cases "map_of msg ''tool_calls''"; cases "map_of msg ''tool_name''")
     (auto simp: context_msg_def Let_def update_conv')

lemma slice_from_neg:
  "slice_from (- M) xs = (if 0 < M then drop (length xs - nat M) xs else drop (nat (- M)) xs)"
proof (cases "0 < M")
  case True
  then show ?thesis by (simp add: slice_from_last)
next
  case False
  have "drop (nat (min (- M) (int (length xs)))) xs = drop (nat (- M)) xs"
  proof (cases "- M \<le> int (length xs)")
    case True
    then show ?thesis by (simp add: min_def)
  next
    case False
    then have "length xs \<le> nat (- M)" by linarith
    then show ?thesis using False by (simp add: min_def)
  qed
  then show ?thesis
    using False by (simp add: slice_from_def Let_def)
qed

text \<open>
  What \<open>get_context_messages\<close> returns for every \<open>max_history\<close> and every history whose
  entries all have a role and a content: the system entry made from the prompt, followed
  by one entry for each entry of \<open>history[-max_history:]\<close> whose role is user, assistant
  or tool, in order. Such an entry has the role and the content of the history entry, its
  \<open>tool_calls\<close> and \<open>tool_name\<close> when the history entry has them, and no other key; no
  entry after the first has the role system or error. The slice \<open>history[-max_history:]\<close>
  is the last \<open>max_history\<close> entries when \<open>max_history\<close> is positive; it is the whole
  history when \<open>max_history\<close> is 0, and the history without its first \<open>- max_history\<close>
  entries when \<open>max_history\<close> is negative.
\<close>

lemma context_projection:
  assumes "\<forall>msg \<in> set hist. map_of msg ''role'' \<noteq> None \<and> map_of msg ''content'' \<noteq> None"
  shows "\<exists>entries.
      get_context_messages M hist prompt =
        Inr ([(''role'', PStr ''system''), (''content'', PStr prompt)] # entries)
      \<and> entries =
          map (\<lambda>msg. context_msg msg (dict_get msg ''role'') (dict_get msg ''content''))
            (filter (\<lambda>msg. dict_get msg ''role'' \<in> {PStr ''user'', PStr ''assistant'', PStr ''tool''})
               (if 0 < M then drop (length hist - nat M) hist else drop (nat (- M)) hist))
      \<and> (\<forall>msg k. map_of (context_msg msg (dict_get msg ''role'') (dict_get msg ''content'')) k =
            (if k = ''role'' then Some (dict_get msg ''role'')
             else if k = ''content'' then Some (dict_get msg ''content'')
             else if k = ''tool_calls'' \<or> k = ''tool_name'' then map_of msg k
             else None))
      \<and> (\<forall>entry \<in> set entries.
            dict_get entry ''role'' \<in> {PStr ''user'', PStr ''assistant'', PStr ''tool''}
            \<and> dict_get entry ''role'' \<noteq> PStr ''system'' \<and> dict_get entry ''role'' \<noteq> PStr ''error'')"
proof -
  define recent where "recent = (if 0 < M then drop (length hist - nat M) hist else drop (nat (- M)) hist)"
  let ?entries = "map (\<lambda>msg. context_msg msg (dict_get msg ''role'') (dict_get msg ''content''))
            (filter (\<lambda>msg. dict_get msg ''role'' \<in> {PStr ''user'', PStr ''assistant'', PStr ''tool''}) recent)"
  have sub: "set recent \<subseteq> set hist"
    unfolding recent_def by (simp add: set_drop_subset)
  have "\<forall>msg \<in> set recent. map_of msg ''role'' \<noteq> None \<and> map_of msg ''content'' \<noteq> None"
    using assms sub by blast
  then have "context_entries recent = Inr ?entries"
    by (rule context_entries_wellformed)
  moreover have "slice_from (- M) hist = recent"
    unfolding recent_def by (rule slice_from_neg)
  ultimately have 1: "get_context_messages M hist prompt =
        Inr ([(''role'', PStr ''system''), (''content'', PStr prompt)] # ?entries)"
    by (simp add: get_context_messages_def)
  have 2: "dict_get entry ''role'' \<in> {PStr ''user'', PStr ''assistant'', PStr ''tool''}
            \<and> dict_get entry ''role'' \<noteq> PStr ''system'' \<and> dict_get entry ''role'' \<noteq> PStr ''error''"
    if "entry \<in> set ?entries" for entry
  proof -
    have "entry \<in> (\<lambda>msg. context_msg msg (dict_get msg ''role'') (dict_get msg ''content'')) `
            set (filter (\<lambda>msg. dict_get msg ''role'' \<in> {PStr ''user'', PStr ''assistant'', PStr ''tool''}) recent)"
      using that by (simp only: set_map)
    then obtain msg where m0: "entry = context_msg msg (dict_get msg ''role'') (dict_get msg ''content'')"
      and m1: "msg \<in> set (filter (\<lambda>msg. dict_get msg ''role'' \<in> {PStr ''user'', PStr ''assistant'', PStr ''tool''}) recent)"
      by blast
    have m: "entry = context_msg msg (dict_get msg ''role'') (dict_get msg ''content'')"
      "dict_get msg ''role'' \<in> {PStr ''user'', PStr ''assistant'', PStr ''tool''}"
      using m0 m1 by simp_all
    have "dict_get entry ''role'' = dict_get msg ''role''"
      unfolding m(1) by (simp add: dict_get_def [of "context_msg _ _ _"] context_msg_keys)
    then show ?thesis using m(2) by auto
  qed
  from 1 2 context_msg_keys show ?thesis unfolding recent_def by blast
qed

text \<open>
  With \<open>max_history = 2\<close>: a stored system message is left out, and so is the entry
  outside the window.
\<close>

lemma context_projection_example:
  "get_context_messages 2
     [[(''role'', PStr ''user''), (''content'', PStr ''old''), (''timestamp'', PStr ''t0'')],
      [(''role'', PStr ''system''), (''content'', PStr ''stored prompt''), (''timestamp'', PStr ''t1'')],
      [(''role'', PStr ''tool''), (''content'', PStr ''42''), (''timestamp'', PStr ''t2''),
       (''tool_name'', PStr ''calc'')]]
     ''fresh prompt''
   = Inr [[(''role'', PStr ''system''), (''content'', PStr ''fresh prompt'')],
          [(''role'', PStr ''tool''), (''content'', PStr ''42''), (''tool_name'', PStr ''calc'')]]"
  by code_simp

text \<open>
  C7 fails for \<open>max_history = 0\<close>, a value that the configuration accepts (it takes any
  integer) and that no code on the way to an LLM call refuses. The last 0 entries of a
  history are none, so the context of the claim is the system entry alone; but
  \<open>history[-0:]\<close> is \<open>history[0:]\<close>, the whole list, and the context holds every user,
  assistant and tool entry of the history.
\<close>

theorem context_projection_zero:
  "get_context_messages 0
     [[(''role'', PStr ''user''), (''content'', PStr ''a''), (''timestamp'', PStr ''t0'')],
      [(''role'', PStr ''assistant''), (''content'', PStr ''b''), (''timestamp'', PStr ''t1'')]]
     ''P''
   = Inr [[(''role'', PStr ''system''), (''content'', PStr ''P'')],
          [(''role'', PStr ''user''), (''content'', PStr ''a'')],
          [(''role'', PStr ''assistant''), (''content'', PStr ''b'')]]"
  by code_simp

subsection \<open>The snapshot\<close>

lemma heap_get_alloc:
  "heap_get (hp @ [ob]) a = (if a = length hp then Some ob else heap_get hp a)"
  by (auto simp: heap_get_def nth_append)

lemma deref_dict_alloc_list: "deref_dict (hp @ [ListObj elems]) a = deref_dict hp a"
proof (cases "a = length hp")
  case True
  have "heap_get hp a = None" using True by (simp add: heap_get_def)
  then show ?thesis using True by (simp add: deref_dict_def heap_get_alloc)
next
  case False
  then show ?thesis by (simp add: deref_dict_def heap_get_alloc)
qed

lemma stored_history_alloc_list:
  assumes "history_ref mgr < length hp"
  shows "stored_history mgr (hp @ [ListObj xs]) = stored_history mgr hp"
proof -
  have h: "heap_get (hp @ [ListObj xs]) (history_ref mgr) = heap_get hp (history_ref mgr)"
    using assms by (simp add: heap_get_alloc)
  have d: "deref_dict (hp @ [ListObj xs]) = deref_dict hp"
    by (rule ext) (rule deref_dict_alloc_list)
  show ?thesis
    unfolding stored_history_def deref_list_def h d by (rule refl)
qed

text \<open>
  C9 (amended): \<open>get_history\<close> returns a new list object with the same elements. The new
  reference is fresh and differs from the manager's; every object that existed before is
  unchanged, so the stored history is unchanged by taking the snapshot; the snapshot
  reads as the stored history; and whatever is done to the returned list itself
  (appending, deleting, replacing or reordering its elements) leaves the stored history
  as it was. The message dicts are shared between the two lists.
\<close>

theorem snapshot_shallow_copy:
  assumes "heap_get hp (history_ref mgr) = Some (ListObj elems)"
  shows "\<exists>r hp'. get_history mgr hp = Some (r, hp')
      \<and> r \<noteq> history_ref mgr
      \<and> heap_get hp r = None
      \<and> heap_get hp' r = Some (ListObj elems)
      \<and> (\<forall>a. a \<noteq> r \<longrightarrow> heap_get hp' a = heap_get hp a)
      \<and> deref_list hp' r = stored_history mgr hp
      \<and> stored_history mgr hp' = stored_history mgr hp
      \<and> (\<forall>f. stored_history mgr (apply_mutation hp' r (ListMutation f)) = stored_history mgr hp)"
proof -
  let ?r = "length hp"
  let ?hp' = "hp @ [ListObj elems]"
  have live: "history_ref mgr < length hp"
    using assms by (simp add: heap_get_def split: if_splits)
  have 1: "get_history mgr hp = Some (?r, ?hp')"
    using assms by (simp add: get_history_def list_copy_def alloc_def)
  have 2: "?r \<noteq> history_ref mgr" using live by simp
  have 3: "heap_get hp ?r = None" by (simp add: heap_get_def)
  have 4: "heap_get ?hp' ?r = Some (ListObj elems)" by (simp add: heap_get_alloc)
  have 5: "heap_get ?hp' a = heap_get hp a" if "a \<noteq> ?r" for a
    using that by (simp add: heap_get_alloc)
  have dd: "deref_dict ?hp' = deref_dict hp"
    by (rule ext) (rule deref_dict_alloc_list)
  have 6: "deref_list ?hp' ?r = stored_history mgr hp"
    unfolding deref_list_def stored_history_def dd 4 assms by simp
  have 7: "stored_history mgr ?hp' = stored_history mgr hp"
    using live by (rule stored_history_alloc_list)
  have 8: "stored_history mgr (apply_mutation ?hp' ?r (ListMutation f)) = stored_history mgr hp" for f
  proof -
    have "apply_mutation ?hp' ?r (ListMutation f) = hp @ [ListObj (f elems)]"
      using 4 by simp
    then show ?thesis
      using stored_history_alloc_list [OF live] by simp
  qed
  from 1 2 3 4 5 6 7 8 show ?thesis by blast
qed

text \<open>A history of one message: the snapshot is emptied and the manager keeps its message.\<close>

theorem snapshot_shallow_copy_witness:
  "get_history \<lparr>history_ref = 1\<rparr>
      [DictObj [(''role'', PStr ''user''), (''content'', PStr ''hi'')], ListObj [0]]
     = Some (2, [DictObj [(''role'', PStr ''user''), (''content'', PStr ''hi'')], ListObj [0], ListObj [0]])
   \<and> stored_history \<lparr>history_ref = 1\<rparr>
        (apply_mutation
           [DictObj [(''role'', PStr ''user''), (''content'', PStr ''hi'')], ListObj [0], ListObj [0]]
           2 (ListMutation (\<lambda>elems. [])))
     = Some [[(''role'', PStr ''user''), (''content'', PStr ''hi'')]]"
proof -
  have live: "heap_get [DictObj [(''role'', PStr ''user''), (''content'', PStr ''hi'')], ListObj [0]]
                (history_ref \<lparr>history_ref = 1\<rparr>) = Some (ListObj [0])"
    by (simp add: heap_get_def)
  show ?thesis
    using snapshot_shallow_copy [OF live]
    by (simp add: get_history_def list_copy_def alloc_def heap_get_def stored_history_def
                  deref_list_def deref_dict_def)
qed

text \<open>
  C9 as stated fails for a change made to a message through the snapshot:
  \<open>snap = get_history(); snap[0]["content"] = "changed"\<close> changes the content of the
  first message of the stored history, because the copy is shallow.
\<close>

theorem snapshot_counterexample:
  "get_history \<lparr>history_ref = 1\<rparr>
      [DictObj [(''role'', PStr ''user''), (''content'', PStr ''hi'')], ListObj [0]]
     = Some (2, [DictObj [(''role'', PStr ''user''), (''content'', PStr ''hi'')], ListObj [0], ListObj [0]])
   \<and> stored_history \<lparr>history_ref = 1\<rparr>
        [DictObj [(''role'', PStr ''user''), (''content'', PStr ''hi'')], ListObj [0]]
     = Some [[(''role'', PStr ''user''), (''content'', PStr ''hi'')]]
   \<and> stored_history \<lparr>history_ref = 1\<rparr>
        (apply_mutation
           [DictObj [(''role'', PStr ''user''), (''content'', PStr ''hi'')], ListObj [0], ListObj [0]]
           2 (ItemMutation 0 (AList.update ''content'' (PStr ''changed''))))
     = Some [[(''role'', PStr ''user''), (''content'', PStr ''changed'')]]"
  by (simp add: get_history_def list_copy_def alloc_def heap_get_def stored_history_def
                deref_list_def deref_dict_def)

section \<open>Properties of the agent\<close>

subsection \<open>What a turn adds to the log\<close>

lemma extends_refl: "extends_with P st st"
  by (simp add: extends_with_def)

lemma extends_trans:
  assumes "extends_with P st st1" and "extends_with P st1 st2"
  shows "extends_with P st st2"
proof -
  obtain evs1 where 1: "events st1 = events st @ evs1" "list_all P evs1"
    using assms(1) by (auto simp: extends_with_def)
  obtain evs2 where 2: "events st2 = events st1 @ evs2" "list_all P evs2"
    using assms(2) by (auto simp: extends_with_def)
  have "events st2 = events st @ (evs1 @ evs2)" "list_all P (evs1 @ evs2)"
    using 1 2 by simp_all
  then show ?thesis unfolding extends_with_def by blast
qed

lemma extends_add_message:
  assumes "\<And>t. P (Appended (new_message role content t kwargs))"
  shows "extends_with P st (conversation_add_message env role content kwargs st)"
proof -
  obtain t w where n: "now env (world st) = (t, w)" by (cases "now env (world st)")
  have "events (conversation_add_message env role content kwargs st)
          = events st @ [Appended (new_message role content t kwargs)]"
    by (simp add: conversation_add_message_def n)
  moreover have "list_all P [Appended (new_message role content t kwargs)]"
    using assms by simp
  ultimately show ?thesis unfolding extends_with_def by blast
qed

lemma extends_llm_chat:
  assumes "P (LLMCall messages tools_arg)"
  shows "extends_with P st (snd (llm_chat env messages tools_arg st))"
proof -
  obtain r w where c: "chat env messages tools_arg (world st) = (r, w)"
    by (cases "chat env messages tools_arg (world st)")
  have "events (snd (llm_chat env messages tools_arg st)) = events st @ [LLMCall messages tools_arg]"
    by (simp add: llm_chat_def c)
  moreover have "list_all P [LLMCall messages tools_arg]"
    using assms by simp
  ultimately show ?thesis unfolding extends_with_def by blast
qed

lemma extends_invoke:
  assumes "\<And>n kw. P (ToolInvoked n kw)"
  shows "extends_with P st (snd (invoke f name kwargs st))"
proof -
  obtain r w where c: "call f kwargs (world st) = (r, w)" by (cases "call f kwargs (world st)")
  have "events (snd (invoke f name kwargs st)) = events st @ [ToolInvoked name kwargs]"
    by (simp add: invoke_def c)
  moreover have "list_all P [ToolInvoked name kwargs]"
    using assms by simp
  ultimately show ?thesis unfolding extends_with_def by blast
qed

lemma extends_execute_tool:
  assumes "\<And>n kw. P (ToolInvoked n kw)"
  shows "extends_with P st (snd (execute_tool reg name kwargs st))"
proof (cases "map_of (tools reg) name")
  case None
  then show ?thesis by (simp add: execute_tool_def extends_refl)
next
  case (Some f)
  obtain r st' where i: "invoke f name kwargs st = (r, st')" by (cases "invoke f name kwargs st")
  have "snd (execute_tool reg name kwargs st) = st'"
    using Some i by (cases r) (simp_all add: execute_tool_def split: exn.splits)
  moreover have "extends_with P st st'"
    using extends_invoke [of P st f name kwargs, OF assms] i by simp
  ultimately show ?thesis by simp
qed

lemma after_log_None: "after_log None st rest = rest"
  by (simp add: after_log_def)

lemma after_log_Some: "after_log (Some e) st rest = (Inl e, st)"
  by (simp add: after_log_def)

lemma extends_after_log:
  assumes "extends_with P st0 st" and "extends_with P st0 (snd rest)"
  shows "extends_with P st0 (snd (after_log r st rest))"
  using assms by (cases r) (simp_all add: after_log_def)

lemma extends_call_execute_tool:
  assumes "\<And>n kw. P (ToolInvoked n kw)"
  shows "extends_with P st (snd (call_execute_tool reg tool_name arguments st))"
proof (cases arguments)
  case (PDict kwargs)
  show ?thesis
  proof (cases "find (\<lambda>k. k = ''self'' \<or> k = ''name'') (map fst kwargs)")
    case (Some k)
    then show ?thesis using PDict by (simp add: call_execute_tool_def extends_refl)
  next
    case None
    then show ?thesis
      using PDict extends_execute_tool [of P st reg _ kwargs, OF assms]
      by (cases tool_name) (simp_all add: call_execute_tool_def extends_refl)
  qed
qed (simp_all add: call_execute_tool_def extends_refl)

lemma extends_tool_call_body:
  assumes "\<And>n kw. P (ToolInvoked n kw)"
  shows "extends_with P st (snd (tool_call_body env tool_call bound st))"
proof (cases "dict_get_default tool_call ''function'' (PDict [])")
  case (PDict function_data)
  let ?tn = "dict_get function_data ''name''"
  let ?args = "dict_get_default function_data ''arguments'' (PDict [])"
  show ?thesis
  proof (cases "truthy ?tn")
    case False
    then show ?thesis using PDict by (simp add: tool_call_body_def Let_def extends_refl)
  next
    case True
    show ?thesis
    proof (cases "print_tool_call env ?tn ?args")
      case (Some e)
      then show ?thesis using PDict True by (simp add: tool_call_body_def Let_def extends_refl)
    next
      case None
      obtain r st' where c: "call_execute_tool (registry env) ?tn ?args st = (r, st')"
        by (cases "call_execute_tool (registry env) ?tn ?args st")
      have "snd (tool_call_body env tool_call bound st) = st'"
        using PDict True None c
        by (cases r) (simp_all add: tool_call_body_def Let_def split: option.splits)
      moreover have "extends_with P st st'"
        using extends_call_execute_tool [of P st "registry env" ?tn ?args, OF assms] c by simp
      ultimately show ?thesis by simp
    qed
  qed
qed (simp_all add: tool_call_body_def extends_refl)

lemma extends_execute_tools_loop:
  assumes "\<And>n kw. P (ToolInvoked n kw)"
  shows "extends_with P st (snd (execute_tools_loop env tool_calls bound results st))"
proof (induction tool_calls arbitrary: bound results st)
  case Nil
  then show ?case by (simp add: extends_refl)
next
  case (Cons tool_call rest)
  obtain r bound' st' where b: "tool_call_body env tool_call bound st = ((r, bound'), st')"
    by (cases "tool_call_body env tool_call bound st") auto
  have step: "extends_with P st st'"
    using extends_tool_call_body [of P st env tool_call bound, OF assms] b by simp
  show ?case
  proof (cases r)
    case (Inr entry)
    then have "snd (execute_tools_loop env (tool_call # rest) bound results st)
                = snd (execute_tools_loop env rest bound' (results @ [entry]) st')"
      using b by simp
    then show ?thesis
      using extends_trans [OF step Cons.IH [of st' bound' "results @ [entry]"]] by simp
  next
    case (Inl e)
    show ?thesis
    proof (cases bound')
      case None
      then show ?thesis using b Inl step by simp
    next
      case (Some tool_name)
      let ?shown = "if truthy tool_name then tool_name else PStr ''unknown''"
      let ?res = "results @ [[(''role'', PStr ''tool''),
                              (''content'', PStr (''Tool execution failed: '' @ exn_str e)),
                              (''tool_name'', ?shown)]]"
      have "snd (execute_tools_loop env (tool_call # rest) bound results st)
                = snd (after_log
                         (print_tool_result env ?shown (''Tool execution failed: '' @ exn_str e) False)
                         st' (execute_tools_loop env rest bound' ?res st'))"
        using b Inl Some by (simp add: Let_def)
      moreover have "extends_with P st
                (snd (after_log
                         (print_tool_result env ?shown (''Tool execution failed: '' @ exn_str e) False)
                         st' (execute_tools_loop env rest bound' ?res st')))"
        by (rule extends_after_log [OF step extends_trans [OF step Cons.IH [of st' bound' ?res]]])
      ultimately show ?thesis by simp
    qed
  qed
qed

lemma extends_record_tool_results:
  assumes "\<And>c t kw. ''role'' \<notin> fst ` set kw \<Longrightarrow> P (Appended (new_message ''tool'' c t kw))"
  shows "extends_with P st (snd (record_tool_results env tool_results context_messages st))"
proof (induction tool_results arbitrary: context_messages st)
  case Nil
  then show ?case by (simp add: extends_refl)
next
  case (Cons result rest)
  show ?case
  proof (cases "dict_item result ''content''")
    case (Inl e)
    then show ?thesis by (simp add: extends_refl)
  next
    case (Inr content)
    note c = this
    show ?thesis
    proof (cases "dict_item result ''tool_name''")
      case (Inl e)
      then show ?thesis using c by (simp add: extends_refl)
    next
      case (Inr tool_name)
      let ?st1 = "conversation_add_message env ''tool'' content [(''tool_name'', tool_name)] st"
      have "extends_with P st ?st1"
        by (rule extends_add_message) (rule assms, simp)
      moreover have "snd (record_tool_results env (result # rest) context_messages st)
                     = snd (record_tool_results env rest (context_messages @ [result]) ?st1)"
        using c Inr by simp
      ultimately show ?thesis
        using extends_trans [OF _ Cons.IH [of ?st1 "context_messages @ [result]"]] by simp
    qed
  qed
qed

lemma extends_handle_tool_calls:
  assumes tool: "\<And>n kw. P (ToolInvoked n kw)"
    and llm: "\<And>msgs. P (LLMCall msgs None)"
    and app: "\<And>r c t kw. r = ''assistant'' \<or> r = ''tool'' \<Longrightarrow> ''role'' \<notin> fst ` set kw
                 \<Longrightarrow> P (Appended (new_message r c t kw))"
  shows "extends_with P st (snd (handle_tool_calls depth env response context_messages tools_schema st))"
proof (induction depth arbitrary: response context_messages st)
  case 0
  then show ?case by (simp add: extends_refl)
next
  case (Suc depth)
  let ?kw = "[(''tool_calls'', case msg_tool_calls (message response) of None \<Rightarrow> PNone
                               | Some tcs \<Rightarrow> PList (map PDict tcs))]"
  let ?st1 = "conversation_add_message env ''assistant'' (PStr (msg_content (message response))) ?kw st"
  have s1: "extends_with P st ?st1"
    by (rule extends_add_message) (rule app, simp_all)
  show ?case
  proof (cases "msg_tool_calls (message response)")
    case None
    then show ?thesis using s1 by (simp add: Let_def)
  next
    case (Some tcs)
    obtain r2 st2 where e: "execute_tools env tcs ?st1 = (r2, st2)"
      by (cases "execute_tools env tcs ?st1")
    have s2: "extends_with P ?st1 st2"
      using extends_execute_tools_loop [of P ?st1 env tcs None "[]", OF tool] e
      by (simp add: execute_tools_def)
    let ?rest = "case execute_tools env tcs ?st1 of
                  (Inl e, st2) \<Rightarrow> (Inl e, st2)
                | (Inr tool_results, st2) \<Rightarrow>
                    (case record_tool_results env tool_results context_messages st2 of
                       (Inl e, st3) \<Rightarrow> (Inl e, st3)
                     | (Inr context_messages', st3) \<Rightarrow>
                         (case llm_chat env context_messages' None st3 of
                            (Inl e, st4) \<Rightarrow> (Inl e, st4)
                          | (Inr final_response, st4) \<Rightarrow>
                              after_log (print_timing env ''Final response'' (timing final_response)) st4
                                (if has_tool_calls final_response then
                                   after_log (logger_info env ''Additional tool calls detected'' []) st4
                                     (handle_tool_calls depth env final_response context_messages'
                                        tools_schema st4)
                                 else
                                   (let st5 = conversation_add_message env ''assistant''
                                                (PStr (msg_content (message final_response))) [] st4
                                    in after_log
                                         (print_message env
                                            (''Assistant: '' @ msg_content (message final_response)))
                                         st5
                                         (Inr (msg_content (message final_response)), st5)))))"
    have unfold: "handle_tool_calls (Suc depth) env response context_messages tools_schema st
        = after_log (logger_info env (''Executing '' @ str_nat (length tcs) @ '' tool(s)'') []) ?st1 ?rest"
      using Some by (simp add: Let_def)
    have rest: "extends_with P st (snd ?rest)"
    proof (cases r2)
      case (Inl e2)
      then have "snd ?rest = st2" using e by simp
      then show ?thesis using extends_trans [OF s1 s2] by simp
    next
      case (Inr tool_results)
      note r2 = this
      obtain r3 st3 where rec: "record_tool_results env tool_results context_messages st2 = (r3, st3)"
        by (cases "record_tool_results env tool_results context_messages st2")
      have s3: "extends_with P st2 st3"
        using extends_record_tool_results [of P st2 env tool_results context_messages] app rec
        by simp
      have s123: "extends_with P st st3"
        using extends_trans [OF extends_trans [OF s1 s2] s3] .
      show ?thesis
      proof (cases r3)
        case (Inl e3)
        then have "snd ?rest = st3" using e r2 rec by simp
        then show ?thesis using s123 by simp
      next
        case (Inr context')
        note r3 = this
        obtain r4 st4 where ch: "llm_chat env context' None st3 = (r4, st4)"
          by (cases "llm_chat env context' None st3")
        have s4: "extends_with P st3 st4"
          using extends_llm_chat [of P context' None st3 env, OF llm] ch by simp
        have s1234: "extends_with P st st4"
          using extends_trans [OF s123 s4] .
        show ?thesis
        proof (cases r4)
          case (Inl e4)
          then have "snd ?rest = st4" using e r2 rec r3 ch by simp
          then show ?thesis using s1234 by simp
        next
          case (Inr final_response)
          note r4 = this
          let ?st5 = "conversation_add_message env ''assistant''
                          (PStr (msg_content (message final_response))) [] st4"
          let ?tail = "if has_tool_calls final_response then
                         after_log (logger_info env ''Additional tool calls detected'' []) st4
                           (handle_tool_calls depth env final_response context' tools_schema st4)
                       else
                         after_log
                           (print_message env (''Assistant: '' @ msg_content (message final_response)))
                           ?st5 (Inr (msg_content (message final_response)), ?st5)"
          have eq: "snd ?rest
              = snd (after_log (print_timing env ''Final response'' (timing final_response)) st4 ?tail)"
            using e r2 rec r3 ch r4 by (simp add: Let_def)
          have s5: "extends_with P st ?st5"
            by (rule extends_trans [OF s1234]) (rule extends_add_message, rule app, simp_all)
          have tail: "extends_with P st (snd ?tail)"
          proof (cases "has_tool_calls final_response")
            case True
            have "extends_with P st
                    (snd (after_log (logger_info env ''Additional tool calls detected'' []) st4
                           (handle_tool_calls depth env final_response context' tools_schema st4)))"
              by (rule extends_after_log
                    [OF s1234 extends_trans [OF s1234 Suc.IH [of st4 final_response context']]])
            then show ?thesis using True by simp
          next
            case False
            have "extends_with P st
                    (snd (after_log
                           (print_message env (''Assistant: '' @ msg_content (message final_response)))
                           ?st5 (Inr (msg_content (message final_response)) :: exn + string, ?st5)))"
              by (rule extends_after_log [OF s5]) (simp add: s5)
            then show ?thesis using False by simp
          qed
          show ?thesis
            unfolding eq by (rule extends_after_log [OF s1234 tail])
        qed
      qed
    qed
    show ?thesis
      unfolding unfold by (rule extends_after_log [OF s1 rest])
  qed
qed

lemma llm_tools_args_append: "llm_tools_args (xs @ ys) = llm_tools_args xs @ llm_tools_args ys"
  by (induction xs rule: llm_tools_args.induct) simp_all

lemma llm_tools_args_none:
  assumes "list_all (\<lambda>ev. case ev of LLMCall msgs t \<Rightarrow> t = None | _ \<Rightarrow> True) evs"
  shows "llm_tools_args evs = replicate (length (llm_tools_args evs)) None"
  using assms by (induction evs rule: llm_tools_args.induct) simp_all

text \<open>The events of the try block: the user message, then at most one LLM call with the
  schema, then events of the continuation.\<close>

lemma body_events:
  assumes tool: "\<And>n kw. P (ToolInvoked n kw)"
    and llm: "\<And>msgs. P (LLMCall msgs None)"
    and app: "\<And>r c t kw. r = ''assistant'' \<or> r = ''tool'' \<Longrightarrow> ''role'' \<notin> fst ` set kw
                 \<Longrightarrow> P (Appended (new_message r c t kw))"
  shows "\<exists>t evs. events (snd (process_message_body depth env user_input st)) =
                   events st @ Appended (new_message ''user'' (PStr user_input) t []) # evs
      \<and> (evs = [] \<or> (\<exists>ctx evs'. evs = LLMCall ctx (Some (get_tools_schema (registry env))) # evs'
                                 \<and> list_all P evs'))"
proof -
  obtain t w where n: "now env (world st) = (t, w)" by (cases "now env (world st)")
  let ?st1 = "conversation_add_message env ''user'' (PStr user_input) [] st"
  have ev1: "events ?st1 = events st @ [Appended (new_message ''user'' (PStr user_input) t [])]"
    by (simp add: conversation_add_message_def n)
  have stop: ?thesis if "snd (process_message_body depth env user_input st) = ?st1"
  proof -
    have "events (snd (process_message_body depth env user_input st)) =
                   events st @ Appended (new_message ''user'' (PStr user_input) t []) # []"
      using ev1 that by simp
    then show ?thesis by blast
  qed
  show ?thesis
  proof (cases "get_context_messages (max_history env) (history ?st1) (system_prompt env)")
    case (Inl e)
    then have "snd (process_message_body depth env user_input st) = ?st1"
      by (simp add: process_message_body_def Let_def)
    then show ?thesis by (rule stop)
  next
    case (Inr ctx)
    note ctx = this
    show ?thesis
    proof (cases "logger_info env ''Processing user message''
                    [(''length'', str_nat (length user_input))]")
      case (Some e)
      then have "snd (process_message_body depth env user_input st) = ?st1"
        using ctx by (simp add: process_message_body_def Let_def after_log_Some)
      then show ?thesis by (rule stop)
    next
      case None
      let ?schema = "get_tools_schema (registry env)"
      obtain r2 st2 where ch: "llm_chat env ctx (Some ?schema) ?st1 = (r2, st2)"
        by (cases "llm_chat env ctx (Some ?schema) ?st1")
      have ev2: "events st2 = events ?st1 @ [LLMCall ctx (Some ?schema)]"
        using ch by (auto simp: llm_chat_def split: prod.splits)
      have "extends_with P st2 (snd (process_message_body depth env user_input st))"
      proof (cases r2)
        case (Inl e)
        then have "snd (process_message_body depth env user_input st) = st2"
          using ctx None ch by (simp add: process_message_body_def Let_def after_log_None)
        then show ?thesis by (simp add: extends_refl)
      next
        case (Inr response)
        note r2 = this
        let ?st3 = "conversation_add_message env ''assistant''
                      (PStr (msg_content (message response))) [] st2"
        let ?tail = "if has_tool_calls response then
                       handle_tool_calls depth env response ctx ?schema st2
                     else
                       after_log (print_message env (''Assistant: '' @ msg_content (message response)))
                         ?st3 (Inr (msg_content (message response)), ?st3)"
        have eq: "snd (process_message_body depth env user_input st)
            = snd (after_log (print_timing env ''LLM response'' (timing response)) st2 ?tail)"
          using ctx None ch r2 by (simp add: process_message_body_def Let_def after_log_None)
        have s3: "extends_with P st2 ?st3"
          by (rule extends_add_message) (rule app, simp_all)
        have tail: "extends_with P st2 (snd ?tail)"
        proof (cases "has_tool_calls response")
          case True
          then show ?thesis
            using extends_handle_tool_calls [of P st2 depth env response ctx ?schema] tool llm app
            by simp
        next
          case False
          have "extends_with P st2
                  (snd (after_log (print_message env (''Assistant: '' @ msg_content (message response)))
                         ?st3 (Inr (msg_content (message response)) :: exn + string, ?st3)))"
            by (rule extends_after_log [OF s3]) (simp add: s3)
          then show ?thesis using False by simp
        qed
        show ?thesis
          unfolding eq by (rule extends_after_log [OF extends_refl tail])
      qed
      then obtain evs' where "events (snd (process_message_body depth env user_input st)) = events st2 @ evs'"
        and p: "list_all P evs'"
        unfolding extends_with_def by blast
      then have "events (snd (process_message_body depth env user_input st)) =
                   events st @ Appended (new_message ''user'' (PStr user_input) t [])
                     # (LLMCall ctx (Some ?schema) # evs')"
        using ev1 ev2 by simp
      then show ?thesis using p by blast
    qed
  qed
qed

text \<open>
  What the handlers of \<open>process_message\<close> add: nothing when the \<open>try\<close> block returns or
  when logging the error raises, and the error message otherwise.
\<close>

lemma process_message_events:
  assumes "process_message_body depth env user_input st = (r, st1)"
    and "now env (world st1) = (ts, w)"
  shows "process_message depth env user_input st =
           (case r of
              Inr reply \<Rightarrow> (Inr reply, st1)
            | Inl e \<Rightarrow>
                (case log_turn_error env e of
                   Some e' \<Rightarrow> (Inl e', st1)
                 | None \<Rightarrow>
                     (Inr (error_msg e),
                      st1\<lparr>world := w,
                          events := events st1 @ [Appended (new_message ''error'' (PStr (error_msg e)) ts [])],
                          history := add_message (max_history env) ''error'' (PStr (error_msg e)) ts []
                                       (history st1)\<rparr>)))"
  using assms
  by (cases r)
     (simp_all add: process_message_def conversation_add_message_def after_log_def
        split: option.splits)

subsection \<open>The tools argument of the LLM calls\<close>

text \<open>
  C8: among the LLM calls that \<open>process_message\<close> makes in one turn, the first is given
  the tools schema of the registry and every later one (the continuation after each
  batch of tool calls) is given none. (There is no call at all when building the
  context raises.)
\<close>

theorem tools_offered_once:
  "\<exists>evs. events (snd (process_message depth env user_input st)) = events st @ evs
     \<and> (llm_tools_args evs = []
        \<or> (\<exists>k. llm_tools_args evs = Some (get_tools_schema (registry env)) # replicate k None))"
proof -
  let ?P = "\<lambda>ev. case ev of LLMCall msgs t \<Rightarrow> t = None | _ \<Rightarrow> True"
  obtain r st1 where b: "process_message_body depth env user_input st = (r, st1)"
    by (cases "process_message_body depth env user_input st")
  obtain ts w where n: "now env (world st1) = (ts, w)" by (cases "now env (world st1)")
  obtain t evs where ev: "events st1 =
                   events st @ Appended (new_message ''user'' (PStr user_input) t []) # evs"
      and evs: "evs = [] \<or> (\<exists>ctx evs'. evs = LLMCall ctx (Some (get_tools_schema (registry env))) # evs'
                                 \<and> list_all ?P evs')"
    using body_events [of ?P depth env user_input st] b by auto
  obtain extra where fin: "events (snd (process_message depth env user_input st)) = events st1 @ extra"
    and extra: "llm_tools_args extra = []"
  proof (cases r)
    case (Inl e)
    show ?thesis
    proof (cases "log_turn_error env e")
      case None
      then have "events (snd (process_message depth env user_input st))
          = events st1 @ [Appended (new_message ''error'' (PStr (error_msg e)) ts [])]"
        using process_message_events [OF b n] Inl by simp
      then show ?thesis using that by simp
    next
      case (Some e')
      then have "events (snd (process_message depth env user_input st)) = events st1 @ []"
        using process_message_events [OF b n] Inl by simp
      then show ?thesis using that by simp
    qed
  next
    case (Inr reply)
    then have "events (snd (process_message depth env user_input st)) = events st1 @ []"
      using process_message_events [OF b n] by simp
    then show ?thesis using that by simp
  qed
  let ?evs = "Appended (new_message ''user'' (PStr user_input) t []) # evs @ extra"
  have 1: "events (snd (process_message depth env user_input st)) = events st @ ?evs"
    using fin ev by simp
  have 2: "llm_tools_args ?evs = llm_tools_args evs"
    using extra by (simp add: llm_tools_args_append)
  have 3: "llm_tools_args evs = []
        \<or> (\<exists>k. llm_tools_args evs = Some (get_tools_schema (registry env)) # replicate k None)"
  proof (cases "evs = []")
    case True
    then show ?thesis by simp
  next
    case False
    then obtain ctx evs' where e: "evs = LLMCall ctx (Some (get_tools_schema (registry env))) # evs'"
      and p: "list_all ?P evs'"
      using evs by blast
    have "llm_tools_args evs = Some (get_tools_schema (registry env))
            # replicate (length (llm_tools_args evs')) None"
      using llm_tools_args_none [OF p] e by simp
    then show ?thesis by blast
  qed
  from 1 2 3 show ?thesis by metis
qed

text \<open>The same turn makes two LLM calls: the first with the schema, the second without.\<close>

lemma stub_turn_llm_calls:
  "llm_tools_args (events (snd (process_message 1 (stub_env [stub_call ''answer'']) ''hi''
                                 \<lparr>world = 0, events = [], history = []\<rparr>)))
   = [Some (get_tools_schema stub_registry), None]"
  by code_simp

theorem tools_offered_once_witness:
  "registry (stub_env [stub_call ''answer'']) = stub_registry
   \<and> llm_tools_args (events (snd (process_message 1 (stub_env [stub_call ''answer'']) ''hi''
                                 \<lparr>world = 0, events = [], history = []\<rparr>)))
   = Some (get_tools_schema stub_registry) # replicate 1 None"
  using tools_offered_once [of 1 "stub_env [stub_call ''answer'']" "''hi''"
          "\<lparr>world = 0, events = [], history = []\<rparr>"]
    stub_turn_llm_calls
  by (simp add: stub_env_def test_env_def)

subsection \<open>Errors of a turn\<close>

text \<open>
  The handlers of \<open>process_message\<close> log the error text before they append the error
  message, and a record of level \<open>ERROR\<close> passes every level the logger can have. So the
  text reaches the markup parser of the console in every configuration; an exception of
  the \<open>try\<close> block is contained exactly when the parser accepts its text.
\<close>

lemma log_turn_error_text:
  "log_turn_error env e =
     markup_error env (if is_LLMError e then error_msg e else error_msg e @ '' [exc_info=True]'')"
proof -
  have "level_no l \<le> level_no ERROR" for l by (cases l) simp_all
  then show ?thesis
    by (simp add: log_turn_error_def logger_error_def log_with_context_def Let_def)
qed

lemma process_message_raises:
  assumes "process_message_body depth env user_input st = (Inl e, st1)"
    and "log_turn_error env e = Some e'"
  shows "process_message depth env user_input st = (Inl e', st1)"
  using assms by (simp add: process_message_def after_log_def)

lemma process_message_contains:
  assumes "process_message_body depth env user_input st = (Inl e, st1)"
    and "log_turn_error env e = None"
  shows "process_message depth env user_input st =
           (Inr (error_msg e), conversation_add_message env ''error'' (PStr (error_msg e)) [] st1)"
  using assms by (simp add: process_message_def after_log_def)

text \<open>
  C5 fails when the text of the exception holds console markup. Here the LLM client
  raises the \<open>LLMResponseError\<close> that it makes from an HTTP error whose body is
  \<open>[/error]\<close>; the handler builds the text \<open>LLM Error: HTTP 500: [/error]\<close> and logs it,
  the console refuses the closing tag, and \<open>MarkupError\<close> leaves \<open>process_message\<close>. The
  history holds the user message and no error message.
\<close>

theorem turn_error_markup:
  "process_message 5
     (failing_llm_env (LLMResponseError ''HTTP 500: [/error]'') (refuses_tag ''[/error]''))
     ''hello'' \<lparr>world = 0, events = [], history = []\<rparr>
   = (Inl (MarkupError (''closing tag '' @ quote @ ''[/error]'' @ quote @ '' matches no open tag'')),
      \<lparr>world = 0,
       events = [Appended [(''role'', PStr ''user''), (''content'', PStr ''hello''),
                           (''timestamp'', PStr ''T'')],
                 LLMCall [[(''role'', PStr ''system''), (''content'', PStr ''P'')],
                          [(''role'', PStr ''user''), (''content'', PStr ''hello'')]] (Some [])],
       history = [[(''role'', PStr ''user''), (''content'', PStr ''hello''),
                   (''timestamp'', PStr ''T'')]]\<rparr>)"
  by code_simp

subsection \<open>A turn with one tool call\<close>

text \<open>
  C4 fails when the content of the second answer holds console markup. Here the client
  answers the first call with one request for the tool \<open>answer\<close>, which returns \<open>42\<close>,
  and the second call with the plain message \<open>see [/INST] tag\<close>. The tool is called once
  with the arguments of the request, the tool message with content \<open>42\<close> and the final
  assistant message are appended; then \<open>print_message\<close> gives the content to the console,
  which refuses the closing tag. The handler of \<open>process_message\<close> catches this
  \<open>MarkupError\<close> and logs its text, which names the tag and is refused again: the call
  raises instead of returning the content.
\<close>

theorem single_tool_chaining_markup:
  "fst (process_message 5
          (test_env [stub_call ''answer''] ''see [/INST] tag'' stub_registry (refuses_tag ''[/INST]''))
          ''hi'' \<lparr>world = 0, events = [], history = []\<rparr>)
     = Inl (MarkupError (''closing tag '' @ quote @ ''[/INST]'' @ quote @ '' matches no open tag''))
   \<and> tool_invocations (events (snd (process_message 5
          (test_env [stub_call ''answer''] ''see [/INST] tag'' stub_registry (refuses_tag ''[/INST]''))
          ''hi'' \<lparr>world = 0, events = [], history = []\<rparr>)))
     = [ToolInvoked ''answer'' [(''x'', PInt 1)]]
   \<and> roles_and_contents (history (snd (process_message 5
          (test_env [stub_call ''answer''] ''see [/INST] tag'' stub_registry (refuses_tag ''[/INST]''))
          ''hi'' \<lparr>world = 0, events = [], history = []\<rparr>)))
     = [(PStr ''user'', PStr ''hi''), (PStr ''assistant'', PStr ''calling''),
        (PStr ''tool'', PStr ''42''), (PStr ''assistant'', PStr ''see [/INST] tag'')]"
  by code_simp

subsection \<open>A batch with a failing tool\<close>

text \<open>
  C3 fails when the text of the tool's exception holds console markup. Here the client
  asks for the tools \<open>answer\<close> and \<open>broken\<close> in one batch; \<open>answer\<close> returns \<open>42\<close> and
  \<open>broken\<close> raises with the text \<open>[/x] markup\<close>. Both handlers are called, in order. The
  \<open>except\<close> clause of \<open>_execute_tools\<close> prints the error text before it appends the
  result, the console refuses the closing tag, and \<open>MarkupError\<close> leaves \<open>_execute_tools\<close>
  with no result at all, not even the one of the first call. The handler of
  \<open>process_message\<close> logs the text of this error, which names the tag and is refused
  again: the exception escapes \<open>process_message\<close>, and the history has no tool message.
\<close>

theorem partial_batch_failure_markup:
  "fst (process_message 5
          (test_env [stub_call ''answer'', stub_call ''broken''] ''done''
             (test_registry ''[/x] markup'') (refuses_tag ''[/x]''))
          ''hi'' \<lparr>world = 0, events = [], history = []\<rparr>)
     = Inl (MarkupError (''closing tag '' @ quote @ ''[/x]'' @ quote @ '' matches no open tag''))
   \<and> tool_invocations (events (snd (process_message 5
          (test_env [stub_call ''answer'', stub_call ''broken''] ''done''
             (test_registry ''[/x] markup'') (refuses_tag ''[/x]''))
          ''hi'' \<lparr>world = 0, events = [], history = []\<rparr>)))
     = [ToolInvoked ''answer'' [(''x'', PInt 1)], ToolInvoked ''broken'' [(''x'', PInt 1)]]
   \<and> roles_and_contents (history (snd (process_message 5
          (test_env [stub_call ''answer'', stub_call ''broken''] ''done''
             (test_registry ''[/x] markup'') (refuses_tag ''[/x]''))
          ''hi'' \<lparr>world = 0, events = [], history = []\<rparr>)))
     = [(PStr ''user'', PStr ''hi''), (PStr ''assistant'', PStr ''calling'')]"
  by code_simp

end
